theory Spec2Isabelle
  imports Main "HOL-Library.Char_ord" "HOL-Library.List_Lexorder"
begin

section \<open>Strings and tables\<close>

text \<open>
  A Python \<open>str\<close> is modelled as the list of its code points, one \<open>char\<close> per code
  point; the model therefore covers text whose code points lie below 256 (ASCII and the
  Latin-1 supplement). Strings are compared as Python compares them: lexicographically by
  code point (\<open>Char_ord\<close>, \<open>List_Lexorder\<close>).

  Every import and report command starts with
  \<^verbatim>\<open>df = pd.read_csv(csv_file_path, dtype=str).fillna('')\<close>:
  a table whose cells are all strings, a missing cell being the empty string. A row of the
  table is a record with one field per column the commands read; the file is taken to
  carry all of these columns in its header.
\<close>

record row =
  ConsumerNumber :: string
  ConsumerName :: string
  FatherName :: string
  MotherName :: string
  Rationcardno :: string
  LPGId :: string
  BlueBookNumber :: string
  KYCDone :: string
  Category :: string
  ConsumerTypeIdDesc :: string
  Address :: string
  MobileNumber :: string
  ProdCode :: string
  NoOfCylinder :: string
  SvNumber :: string
  SvDateInt :: string
  InDocTypeIdDesc :: string
  HistCodeDescription :: string
  NoOfDpr :: string
  HouseNo :: string
  AreaCodeDesc :: string

text \<open>The row of an empty line: every cell is \<open>''\<close> after \<open>fillna('')\<close>.\<close>

definition blank_row :: row where
  "blank_row = \<lparr>ConsumerNumber = [], ConsumerName = [], FatherName = [], MotherName = [],
     Rationcardno = [], LPGId = [], BlueBookNumber = [], KYCDone = [], Category = [],
     ConsumerTypeIdDesc = [], Address = [], MobileNumber = [], ProdCode = [],
     NoOfCylinder = [], SvNumber = [], SvDateInt = [], InDocTypeIdDesc = [],
     HistCodeDescription = [], NoOfDpr = [], HouseNo = [], AreaCodeDesc = []\<rparr>"

text \<open>
  \<^verbatim>\<open>df.drop_duplicates(subset=[col], keep='first')\<close>: of the rows that agree on the
  column, the first one stays, in the original row order.
\<close>

fun drop_duplicates :: "('a \<Rightarrow> 'k) \<Rightarrow> 'a list \<Rightarrow> 'a list" where
  "drop_duplicates key [] = []"
| "drop_duplicates key (r # rs) =
     r # drop_duplicates key (filter (\<lambda>x. key x \<noteq> key r) rs)"

text \<open>\<^verbatim>\<open>Series.nunique()\<close>: the number of distinct values (no cell is NaN here).\<close>

definition nunique :: "'a list \<Rightarrow> nat" where
  "nunique xs = length (remdups xs)"

text \<open>
  \<^verbatim>\<open>df.groupby(key)\<close> iterates over the distinct keys in ascending order
  (\<open>sort=True\<close> is the default), each with the rows that carry it, in row order.
\<close>

definition groupby :: "('a \<Rightarrow> string) \<Rightarrow> 'a list \<Rightarrow> (string \<times> 'a list) list" where
  "groupby key rows =
     map (\<lambda>k. (k, filter (\<lambda>r. key r = k) rows)) (sort (remdups (map key rows)))"

definition groupby_nunique ::
  "('a \<Rightarrow> string) \<Rightarrow> ('a \<Rightarrow> 'v) \<Rightarrow> 'a list \<Rightarrow> (string \<times> nat) list" where
  "groupby_nunique key col rows =
     map (\<lambda>(k, g). (k, nunique (map col g))) (groupby key rows)"

section \<open>The string methods the commands call\<close>

text \<open>Exceptions are values; a computation that may raise returns \<open>error + 'a\<close>.\<close>

datatype error =
  ValueError | OverflowError | IndexError | AttributeError | IntegrityError | CommandError

text \<open>
  \<^verbatim>\<open>str.isspace\<close> per character, for the code points below 256: the ASCII white space,
  the separators U+001C..U+001F, U+0085 and U+00A0.
\<close>

definition py_isspace :: "char \<Rightarrow> bool" where
  "py_isspace c =
     (let n = (of_char c :: nat)
      in (9 \<le> n \<and> n \<le> 13) \<or> (28 \<le> n \<and> n \<le> 32) \<or> n = 133 \<or> n = 160)"

text \<open>\<^verbatim>\<open>s.strip()\<close>\<close>

definition py_strip :: "string \<Rightarrow> string" where
  "py_strip s = rev (dropWhile py_isspace (rev (dropWhile py_isspace s)))"

text \<open>\<^verbatim>\<open>s.split('-')[0]\<close>: the text before the first hyphen, all of it when there is none.\<close>

definition py_split_head :: "string \<Rightarrow> string" where
  "py_split_head s = takeWhile (\<lambda>c. c \<noteq> CHR ''-'') s"

text \<open>\<^verbatim>\<open>s.split('-', 1)\<close>: one part when there is no hyphen, two parts otherwise.\<close>

definition py_split_once :: "string \<Rightarrow> string list" where
  "py_split_once s =
     (case dropWhile (\<lambda>c. c \<noteq> CHR ''-'') s of
        [] \<Rightarrow> [s]
      | _ # rest \<Rightarrow> [takeWhile (\<lambda>c. c \<noteq> CHR ''-'') s, rest])"

text \<open>
  \<^verbatim>\<open>s.upper()\<close>, for the code points below 256: the ASCII and Latin-1 small letters go
  to their capitals, U+00DF (sharp s) goes to \<open>SS\<close>. The capitals of U+00B5 and U+00FF lie
  above 255; the model leaves these two characters as they are.
\<close>

definition upper_char :: "char \<Rightarrow> string" where
  "upper_char c =
     (let n = (of_char c :: nat)
      in if (97 \<le> n \<and> n \<le> 122) \<or> (224 \<le> n \<and> n \<le> 254 \<and> n \<noteq> 247)
         then [char_of (n - 32)]
         else if n = 223 then ''SS'' else [c])"

definition py_upper :: "string \<Rightarrow> string" where
  "py_upper s = concat (map upper_char s)"

text \<open>\<^verbatim>\<open>sub in s\<close>: \<open>sub\<close> occurs in \<open>s\<close> as a contiguous substring.\<close>

fun py_in :: "string \<Rightarrow> string \<Rightarrow> bool" where
  "py_in sub [] = (sub = [])"
| "py_in sub (c # cs) = (take (length sub) (c # cs) = sub \<or> py_in sub cs)"

text \<open>
  \<^verbatim>\<open>s.isdigit()\<close>: the string is not empty and every character is a digit. Below 256
  the digits are \<open>0\<close>..\<open>9\<close> and the superscripts U+00B2, U+00B3 and U+00B9, which are
  digits (\<open>Numeric_Type=Digit\<close>) without being decimal characters.
\<close>

definition is_decimal_char :: "char \<Rightarrow> bool" where
  "is_decimal_char c = (let n = (of_char c :: nat) in 48 \<le> n \<and> n \<le> 57)"

definition is_digit_char :: "char \<Rightarrow> bool" where
  "is_digit_char c =
     (let n = (of_char c :: nat) in (48 \<le> n \<and> n \<le> 57) \<or> n = 178 \<or> n = 179 \<or> n = 185)"

definition py_isdigit :: "string \<Rightarrow> bool" where
  "py_isdigit s = (s \<noteq> [] \<and> list_all is_digit_char s)"

text \<open>\<^verbatim>\<open>s.replace('.', '', 1)\<close>: the first full stop is removed.\<close>

fun remove_first_dot :: "string \<Rightarrow> string" where
  "remove_first_dot [] = []"
| "remove_first_dot (c # cs) = (if c = CHR ''.'' then cs else c # remove_first_dot cs)"

text \<open>
  \<^verbatim>\<open>int(s)\<close> for a string: surrounding white space is dropped, one sign is allowed, and
  the rest must be decimal characters, single underscores being allowed between them;
  anything else raises \<open>ValueError\<close>. The white space \<open>int\<close> drops is narrower than that of
  \<open>strip\<close>: the C white space (U+0009..U+000D, the blank) and, converted to blanks
  before the number is read, U+0085 and U+00A0; the separators U+001C..U+001F are left
  in place and make the literal invalid. (The interpreter's configurable limit on the
  number of digits is left out.)
\<close>

definition int_isspace :: "char \<Rightarrow> bool" where
  "int_isspace c =
     (let n = (of_char c :: nat)
      in (9 \<le> n \<and> n \<le> 13) \<or> n = 32 \<or> n = 133 \<or> n = 160)"

definition int_strip :: "string \<Rightarrow> string" where
  "int_strip s = rev (dropWhile int_isspace (rev (dropWhile int_isspace s)))"

fun int_literal_body :: "string \<Rightarrow> bool" where
  "int_literal_body [] = False"
| "int_literal_body [c] = is_decimal_char c"
| "int_literal_body (c # d # cs) =
     (is_decimal_char c \<and>
      (if d = CHR ''_'' then int_literal_body cs else int_literal_body (d # cs)))"

definition decimal_value :: "string \<Rightarrow> nat" where
  "decimal_value ds = foldl (\<lambda>a c. 10 * a + (of_char c - 48)) 0 ds"

definition py_int :: "string \<Rightarrow> error + int" where
  "py_int s =
     (let t = int_strip s;
          (sign, body) =
            (case t of
               [] \<Rightarrow> (1, t)
             | c # r \<Rightarrow> if c = CHR ''-'' then (- 1, r) else if c = CHR ''+'' then (1, r) else (1, t))
      in if int_literal_body body
         then Inr (sign * int (decimal_value (filter (\<lambda>c. c \<noteq> CHR ''_'') body)))
         else Inl ValueError)"

text \<open>
  The float and date functions of the language are parameters of the model: a float is a
  value of a type \<open>'f\<close>, a date a value of a type \<open>'d\<close>.
\<close>

record ('f, 'd) pylib =
  float_of_str :: "string \<Rightarrow> 'f option"
  int_of_float :: "'f \<Rightarrow> error + int"
  str_of_float :: "'f \<Rightarrow> string"
  strptime_date :: "string \<Rightarrow> 'd option"

text \<open>
  \<^item> \<open>float_of_str\<close>: \<^verbatim>\<open>float(s)\<close>; \<open>None\<close> when it raises \<open>ValueError\<close>;
  \<^item> \<open>int_of_float\<close>: \<^verbatim>\<open>int(x)\<close>, the float truncated towards zero; it raises
    \<open>OverflowError\<close> on an infinity and \<open>ValueError\<close> on a NaN;
  \<^item> \<open>str_of_float\<close>: the text of a float in an f-string;
  \<^item> \<open>strptime_date\<close>: \<^verbatim>\<open>datetime.strptime(s, '%b %d, %Y').date()\<close>; \<open>None\<close> when it
    raises \<open>ValueError\<close>.
\<close>

section \<open>find\_duplicate\_ration\_cards\<close>

text \<open>
  \<^verbatim>\<open>
  df_filtered = df[df['Rationcardno'] != '']
  grouped = df_filtered.groupby('Rationcardno')['ConsumerNumber'].nunique()
  true_duplicates = grouped[grouped > 1]
  \<close>
\<close>

definition true_duplicates :: "row list \<Rightarrow> (string \<times> nat) list" where
  "true_duplicates df =
     (let df_filtered = filter (\<lambda>r. Rationcardno r \<noteq> []) df;
          grouped = groupby_nunique Rationcardno ConsumerNumber df_filtered
      in filter (\<lambda>(k, n). 1 < n) grouped)"

text \<open>
  One finding of the report: the ration card, the number of different consumers that share
  it, and the first row of each of these consumers with the row number that is printed
  (\<open>index + 2\<close>).
\<close>

record finding =
  ration_card :: string
  unique_consumer_count :: nat
  unique_consumer_rows :: "(nat \<times> row) list"

text \<open>
  \<^verbatim>\<open>
  if true_duplicates.empty: ... return
  all_offending_rows = df[df['Rationcardno'].isin(true_duplicates.index)]
  for ration_card_num, group_df in all_offending_rows.groupby('Rationcardno'):
      unique_consumer_count = group_df['ConsumerNumber'].nunique()
      unique_consumer_rows = group_df.drop_duplicates(subset=['ConsumerNumber'])
      for index, row in unique_consumer_rows.iterrows(): ... str(index + 2) ...
  \<close>
  The command prints; the model returns the list of findings in the order printed, the
  empty list standing for the message that no ration card is shared.
\<close>

definition find_duplicate_ration_cards :: "row list \<Rightarrow> finding list" where
  "find_duplicate_ration_cards df =
     (let td = true_duplicates df in
      if td = [] then []
      else
        let indexed = zip [0 ..< length df] df;
            all_offending_rows =
              filter (\<lambda>(i, r). Rationcardno r \<in> set (map fst td)) indexed
        in map (\<lambda>(k, group_df).
                  \<lparr>ration_card = k,
                   unique_consumer_count = nunique (map (ConsumerNumber \<circ> snd) group_df),
                   unique_consumer_rows =
                     map (\<lambda>(i, r). (i + 2, r))
                       (drop_duplicates (ConsumerNumber \<circ> snd) group_df)\<rparr>)
             (groupby (Rationcardno \<circ> snd) all_offending_rows))"

section \<open>shared\_bluebook\<close>

text \<open>
  \<^verbatim>\<open>Series.value_counts()\<close>: the distinct values with the number of their occurrences,
  sorted by that number in descending order (\<open>sort=True, ascending=False\<close> are the
  defaults). The library sorts the counts of the values, taken in first-seen order, by
  reversing, sorting ascending and reversing again; the order among values of equal count
  is the library's and no statement below depends on it.
\<close>

definition value_counts :: "string list \<Rightarrow> (string \<times> nat) list" where
  "value_counts xs =
     rev (sort_key snd (rev (map (\<lambda>v. (v, count_list xs v)) (rev (remdups (rev xs))))))"

text \<open>
  \<^verbatim>\<open>
  unique_consumer_df = df.drop_duplicates(subset=['ConsumerNumber'], keep='first')
  consumers_with_blue_book = unique_consumer_df[unique_consumer_df['BlueBookNumber'] != '']
  blue_book_counts = consumers_with_blue_book['BlueBookNumber'].value_counts()
  duplicate_counts = blue_book_counts[blue_book_counts > 1]
  if duplicate_counts.empty: ... return
  self.stdout.write(duplicate_counts.to_string())
  \<close>
  The model returns the lines of the printed series, in the order printed: a blue-book
  number and the number of unique consumers that carry it.
\<close>

definition shared_bluebook :: "row list \<Rightarrow> (string \<times> nat) list" where
  "shared_bluebook df =
     (let unique_consumer_df = drop_duplicates ConsumerNumber df;
          consumers_with_blue_book = filter (\<lambda>r. BlueBookNumber r \<noteq> []) unique_consumer_df;
          blue_book_counts = value_counts (map BlueBookNumber consumers_with_blue_book)
      in filter (\<lambda>(b, n). 1 < n) blue_book_counts)"

section \<open>The store\<close>

text \<open>
  A table of the database is the list of its rows in insertion order, each with its primary
  key. A lookup registry (\<open>ConsumerCategory\<close>, \<open>ConsumerType\<close>, \<open>ConnectionType\<close>,
  \<open>Product\<close>, \<open>Unit\<close>) holds named objects: a row is the name the commands look it up by.
\<close>

type_synonym 'a table = "(nat \<times> 'a) list"

text \<open>\<open>consumers.models.Consumer\<close>, the fields the import sets; a foreign key is the key of the row it points to.\<close>

record consumer =
  consumer_number :: string
  consumer_name :: string
  father_name :: string
  mother_name :: string
  ration_card_num :: "string option"
  lpg_id :: "int option"
  blue_book :: "int option"
  is_kyc_done :: bool
  category :: "nat option"
  consumer_type :: "nat option"

text \<open>\<open>ConnectionDetails\<close>, \<open>ProductVariant\<close>, \<open>Address\<close> and \<open>Contact\<close>, the fields the import sets.\<close>

record 'd connection =
  consumer_id :: nat
  sv_number :: string
  sv_date :: "'d option"
  connection_type :: "nat option"
  hist_code_description :: string
  num_of_regulators :: int
  product :: "nat option"

record 'f variant =
  product_code :: string
  variant_name :: string
  variant_product :: "nat option"
  variant_unit :: "nat option"
  variant_size :: 'f
  variant_type :: string

record address =
  address_content_type :: nat
  address_object_id :: nat
  address_text :: string

record contact =
  contact_content_type :: nat
  contact_object_id :: nat
  mobile_number :: string

text \<open>\<open>Route\<close>, \<open>RouteArea\<close> and \<open>consumers.models.ConsumerRouteAssignment\<close> (its primary key is the consumer).\<close>

record route =
  area_code :: string
  area_code_description :: string

record route_area =
  area_route :: nat
  area_name :: string

record assignment =
  assigned_consumer :: nat
  assigned_route :: nat

record ('f, 'd) store =
  consumer_tbl :: "consumer table"
  connection_tbl :: "'d connection table"
  variant_tbl :: "'f variant table"
  address_tbl :: "address table"
  contact_tbl :: "contact table"
  category_tbl :: "string table"
  consumer_type_tbl :: "string table"
  connection_type_tbl :: "string table"
  product_tbl :: "string table"
  unit_tbl :: "string table"
  consumer_content_type :: nat
  route_tbl :: "route table"
  route_area_tbl :: "route_area table"
  assignment_tbl :: "assignment list"

text \<open>
  A dict comprehension \<^verbatim>\<open>{key(x): x for x in xs}\<close>: of two entries with one key the later
  one stays.
\<close>

definition dict_of :: "('k \<times> 'v) list \<Rightarrow> 'k \<rightharpoonup> 'v" where
  "dict_of kvs = map_of (rev kvs)"

text \<open>The key a new row gets: one more than the largest key of the table.\<close>

definition fresh_pk :: "'a table \<Rightarrow> nat" where
  "fresh_pk tbl = Suc (fold max (map fst tbl) 0)"

text \<open>
  Inserting one row: the constraint of the table is checked against the rows already there;
  a violation raises \<open>IntegrityError\<close>.
\<close>

definition insert_row :: "('a table \<Rightarrow> 'a \<Rightarrow> bool) \<Rightarrow> 'a table \<Rightarrow> 'a \<Rightarrow> error + 'a table" where
  "insert_row ok tbl x = (if ok tbl x then Inr (tbl @ [(fresh_pk tbl, x)]) else Inl IntegrityError)"

fun insert_rows :: "('t \<Rightarrow> 'a \<Rightarrow> error + 't) \<Rightarrow> 't \<Rightarrow> 'a list \<Rightarrow> error + 't" where
  "insert_rows ins tbl [] = Inr tbl"
| "insert_rows ins tbl (x # xs) =
     (case ins tbl x of Inl e \<Rightarrow> Inl e | Inr tbl' \<Rightarrow> insert_rows ins tbl' xs)"

text \<open>
  \<^verbatim>\<open>Model.objects.bulk_create(objs, batch_size=n)\<close> cuts the objects into batches of \<open>n\<close>
  and sends one INSERT statement per batch, all batches of the call inside one atomic block
  of its own: when a batch is rejected the exception leaves \<open>bulk_create\<close> and none of the
  rows of the call stays. A batch size of zero is refused with \<open>ValueError\<close>. The result is
  the exception raised, if any, and the table as the call leaves it.
\<close>

function chunks :: "nat \<Rightarrow> 'a list \<Rightarrow> 'a list list" where
  "chunks n xs = (if n = 0 \<or> xs = [] then [] else take n xs # chunks n (drop n xs))"
  by pat_completeness auto
termination
  by (relation "measure (\<lambda>(n, xs). length xs)") auto

declare chunks.simps [simp del]

fun insert_batches ::
  "('t \<Rightarrow> 'a \<Rightarrow> error + 't) \<Rightarrow> 't \<Rightarrow> 'a list list \<Rightarrow> error + 't" where
  "insert_batches ins tbl [] = Inr tbl"
| "insert_batches ins tbl (b # bs) =
     (case insert_rows ins tbl b of
        Inl e \<Rightarrow> Inl e
      | Inr tbl' \<Rightarrow> insert_batches ins tbl' bs)"

definition bulk_create ::
  "('t \<Rightarrow> 'a \<Rightarrow> error + 't) \<Rightarrow> nat \<Rightarrow> 't \<Rightarrow> 'a list \<Rightarrow> error option \<times> 't" where
  "bulk_create ins batch_size tbl objs =
     (if batch_size = 0 then (Some ValueError, tbl)
      else (case insert_batches ins tbl (chunks batch_size objs) of
              Inl e \<Rightarrow> (Some e, tbl)
            | Inr tbl' \<Rightarrow> (None, tbl')))"

text \<open>
  The constraints of \<open>Consumer\<close> as \<open>consumers/models.py\<close> declares them: \<open>category\<close> and
  \<open>consumer_type\<close> are not nullable, \<open>consumer_number\<close> is unique, \<open>lpg_id\<close> is unique
  where it is present, \<open>blue_book\<close> is a \<open>PositiveIntegerField\<close> (0 to 2147483647) and
  \<open>lpg_id\<close> a \<open>PositiveBigIntegerField\<close> (0 to 9223372036854775807). A row that breaks
  one of them is rejected by the write; the model reports every rejection as
  \<open>IntegrityError\<close>.
\<close>

definition in_range :: "int option \<Rightarrow> int \<Rightarrow> bool" where
  "in_range v hi = (case v of None \<Rightarrow> True | Some i \<Rightarrow> 0 \<le> i \<and> i \<le> hi)"

definition consumer_ok :: "consumer table \<Rightarrow> consumer \<Rightarrow> bool" where
  "consumer_ok tbl c =
     (category c \<noteq> None \<and> consumer_type c \<noteq> None \<and>
      consumer_number c \<notin> set (map (consumer_number \<circ> snd) tbl) \<and>
      (lpg_id c = None \<or> lpg_id c \<notin> set (map (lpg_id \<circ> snd) tbl)) \<and>
      in_range (blue_book c) 2147483647 \<and>
      in_range (lpg_id c) 9223372036854775807)"

text \<open>
  Modelled from the spec: the declarations of \<open>ProductVariant\<close> and \<open>ConnectionDetails\<close>
  (\<open>products/models.py\<close>, \<open>connections/models.py\<close>) are not among the sources. The data
  model gives \<open>product_code\<close> as the unique natural key of a variant and \<open>sv_number\<close> as
  unique across the whole store; both are strings, as the cells they are compared with.
  \<open>Address\<close> and \<open>Contact\<close> carry no constraint.
\<close>

definition variant_ok :: "'f variant table \<Rightarrow> 'f variant \<Rightarrow> bool" where
  "variant_ok tbl v = (product_code v \<notin> set (map (product_code \<circ> snd) tbl))"

definition connection_ok :: "'d connection table \<Rightarrow> 'd connection \<Rightarrow> bool" where
  "connection_ok tbl c = (sv_number c \<notin> set (map (sv_number \<circ> snd) tbl))"

definition unconstrained :: "'a table \<Rightarrow> 'a \<Rightarrow> bool" where
  "unconstrained tbl x = True"

text \<open>
  \<^verbatim>\<open>@transaction.atomic\<close> around a command: when the body raises, every write of the body
  is rolled back and the exception goes on; otherwise the writes are committed.
\<close>

definition atomic ::
  "('s \<Rightarrow> error option \<times> 's) \<Rightarrow> 's \<Rightarrow> error option \<times> 's" where
  "atomic body st = (case body st of (Some e, st') \<Rightarrow> (Some e, st) | (None, st') \<Rightarrow> (None, st'))"

section \<open>populate\_consumers\<close>

subsection \<open>Step 1: the pre-fetched lookups and key sets\<close>

text \<open>
  \<^verbatim>\<open>
  categories = {cat.name: cat for cat in ConsumerCategory.objects.all()}   (and the like)
  existing_consumer_nums = set(Consumer.objects.values_list('consumer_number', flat=True))
  existing_connection_nums = set(ConnectionDetails.objects.values_list('sv_number', flat=True))
  existing_variant_codes = set(ProductVariant.objects.values_list('product_code', flat=True))
  \<close>
  A registry object is the pair of its key and its name.
\<close>

definition by_name :: "string table \<Rightarrow> string \<rightharpoonup> (nat \<times> string)" where
  "by_name tbl = dict_of (map (\<lambda>(pk, name). (name, (pk, name))) tbl)"

definition existing_consumer_nums :: "('f, 'd) store \<Rightarrow> string set" where
  "existing_consumer_nums st = set (map (consumer_number \<circ> snd) (consumer_tbl st))"

definition existing_connection_nums :: "('f, 'd) store \<Rightarrow> string set" where
  "existing_connection_nums st = set (map (sv_number \<circ> snd) (connection_tbl st))"

definition existing_variant_codes :: "('f, 'd) store \<Rightarrow> string set" where
  "existing_variant_codes st = set (map (product_code \<circ> snd) (variant_tbl st))"

subsection \<open>Step 2: the new consumers\<close>

text \<open>
  \<^verbatim>\<open>
  lpg_id=int(float(row['LPGId']))
         if row.get('LPGId') and row.get('LPGId').replace('.','',1).isdigit() else None
  blue_book=int(row['BlueBookNumber'])
         if row.get('BlueBookNumber') and row.get('BlueBookNumber').isdigit() else None
  \<close>
\<close>

definition lpg_id_of :: "('f, 'd) pylib \<Rightarrow> string \<Rightarrow> error + int option" where
  "lpg_id_of lib s =
     (if s \<noteq> [] \<and> py_isdigit (remove_first_dot s)
      then (case float_of_str lib s of
              None \<Rightarrow> Inl ValueError
            | Some x \<Rightarrow> (case int_of_float lib x of Inl e \<Rightarrow> Inl e | Inr i \<Rightarrow> Inr (Some i)))
      else Inr None)"

definition blue_book_of :: "string \<Rightarrow> error + int option" where
  "blue_book_of s =
     (if s \<noteq> [] \<and> py_isdigit s
      then (case py_int s of Inl e \<Rightarrow> Inl e | Inr i \<Rightarrow> Inr (Some i))
      else Inr None)"

text \<open>
  The \<^verbatim>\<open>Consumer(...)\<close> of one row. The keyword arguments are evaluated in the order
  written, so an exception of \<open>lpg_id\<close> comes before one of \<open>blue_book\<close>; the two lookups
  are \<^verbatim>\<open>categories.get(row['Category'])\<close> and
  \<^verbatim>\<open>consumer_types.get(row['ConsumerTypeIdDesc'])\<close>.
\<close>

definition new_consumer :: "('f, 'd) pylib \<Rightarrow> ('f, 'd) store \<Rightarrow> row \<Rightarrow> error + consumer" where
  "new_consumer lib st r =
     (case lpg_id_of lib (LPGId r) of
        Inl e \<Rightarrow> Inl e
      | Inr l \<Rightarrow>
          (case blue_book_of (BlueBookNumber r) of
             Inl e \<Rightarrow> Inl e
           | Inr b \<Rightarrow>
               Inr \<lparr>consumer_number = ConsumerNumber r,
                    consumer_name = ConsumerName r,
                    father_name = FatherName r,
                    mother_name = MotherName r,
                    ration_card_num = (if Rationcardno r \<noteq> [] then Some (Rationcardno r) else None),
                    lpg_id = l,
                    blue_book = b,
                    is_kyc_done = (KYCDone r = ''KYC Done''),
                    category = map_option fst (by_name (category_tbl st) (Category r)),
                    consumer_type =
                      map_option fst (by_name (consumer_type_tbl st) (ConsumerTypeIdDesc r))\<rparr>))"

text \<open>
  \<^verbatim>\<open>
  for _, row in unique_consumer_df.iterrows():
      if row['ConsumerNumber'] in existing_consumer_nums:
          continue
      consumers_to_create.append(Consumer(...))
      new_consumer_numbers.add(row['ConsumerNumber'])
  \<close>
  The loop state is \<open>(consumers_to_create, new_consumer_numbers)\<close>.
\<close>

fun stage_consumers_loop ::
  "('f, 'd) pylib \<Rightarrow> ('f, 'd) store \<Rightarrow> row list \<Rightarrow> consumer list \<times> string set \<Rightarrow>
     error + consumer list \<times> string set" where
  "stage_consumers_loop lib st [] acc = Inr acc"
| "stage_consumers_loop lib st (r # rs) (cs, new) =
     (if ConsumerNumber r \<in> existing_consumer_nums st
      then stage_consumers_loop lib st rs (cs, new)
      else (case new_consumer lib st r of
              Inl e \<Rightarrow> Inl e
            | Inr c \<Rightarrow> stage_consumers_loop lib st rs (cs @ [c], insert (ConsumerNumber r) new)))"

definition stage_consumers ::
  "('f, 'd) pylib \<Rightarrow> ('f, 'd) store \<Rightarrow> row list \<Rightarrow> error + consumer list \<times> string set" where
  "stage_consumers lib st df =
     (let unique_consumer_df = drop_duplicates ConsumerNumber df
      in stage_consumers_loop lib st unique_consumer_df ([], {}))"

subsection \<open>Step 5: the related records\<close>

record ('f, 'd) staging =
  addresses_to_create :: "address list"
  contacts_to_create :: "contact list"
  variants_to_create :: "(string \<times> 'f variant) list"
  connections_to_create :: "'d connection list"
  new_consumer_numbers :: "string set"
  sv_numbers_in_batch :: "string set"

text \<open>
  \<^verbatim>\<open>
  if consumer_obj.consumer_number in new_consumer_numbers:
      addresses_to_create.append(Address(..., object_id=consumer_obj.id, address_text=row.get('Address')))
      contacts_to_create.append(Contact(..., object_id=consumer_obj.id, mobile_number=row.get('MobileNumber')))
      new_consumer_numbers.remove(consumer_obj.consumer_number)
  \<close>
\<close>

definition stage_address ::
  "('f, 'd) store \<Rightarrow> nat \<times> consumer \<Rightarrow> row \<Rightarrow> ('f, 'd) staging \<Rightarrow> ('f, 'd) staging" where
  "stage_address st consumer_obj r s =
     (if consumer_number (snd consumer_obj) \<in> new_consumer_numbers s
      then s\<lparr>addresses_to_create := addresses_to_create s @
                 [\<lparr>address_content_type = consumer_content_type st,
                   address_object_id = fst consumer_obj,
                   address_text = Address r\<rparr>],
              contacts_to_create := contacts_to_create s @
                 [\<lparr>contact_content_type = consumer_content_type st,
                   contact_object_id = fst consumer_obj,
                   mobile_number = MobileNumber r\<rparr>],
              new_consumer_numbers := new_consumer_numbers s - {consumer_number (snd consumer_obj)}\<rparr>
      else s)"

text \<open>
  \<^verbatim>\<open>
  prod_code = row['ProdCode']
  if prod_code and prod_code not in existing_variant_codes and prod_code not in variants_to_create:
      variant_size = float(row.get('NoOfCylinder', 0))
      ct = consumer_types.get(row['ConsumerTypeIdDesc'])
      variant_type_str = 'DOMESTIC' if ct and ct.name == 'Domestic' else 'COMMERCIAL'
      variants_to_create[prod_code] = ProductVariant(
          product_code=prod_code, name=f"{variant_type_str.title()} Cylinder {variant_size}kg",
          product=products.get('LPG Cylinder'), unit=units.get('kg'),
          size=variant_size, variant_type=variant_type_str)
  \<close>
  \<open>variants_to_create\<close> is a dict in insertion order; a key is never stored twice.
\<close>

definition stage_variant ::
  "('f, 'd) pylib \<Rightarrow> ('f, 'd) store \<Rightarrow> row \<Rightarrow> ('f, 'd) staging \<Rightarrow> error + ('f, 'd) staging" where
  "stage_variant lib st r s =
     (let prod_code = ProdCode r in
      if prod_code \<noteq> [] \<and> prod_code \<notin> existing_variant_codes st \<and>
         prod_code \<notin> fst ` set (variants_to_create s)
      then (case float_of_str lib (NoOfCylinder r) of
              None \<Rightarrow> Inl ValueError
            | Some sz \<Rightarrow>
                let ct = by_name (consumer_type_tbl st) (ConsumerTypeIdDesc r);
                    domestic = (case ct of None \<Rightarrow> False | Some c \<Rightarrow> snd c = ''Domestic'');
                    variant_type_str = (if domestic then ''DOMESTIC'' else ''COMMERCIAL'');
                    title = (if domestic then ''Domestic'' else ''Commercial'')
                in Inr (s\<lparr>variants_to_create := variants_to_create s @
                          [(prod_code,
                            \<lparr>product_code = prod_code,
                             variant_name = title @ '' Cylinder '' @ str_of_float lib sz @ ''kg'',
                             variant_product = map_option fst (by_name (product_tbl st) ''LPG Cylinder''),
                             variant_unit = map_option fst (by_name (unit_tbl st) ''kg''),
                             variant_size = sz,
                             variant_type = variant_type_str\<rparr>)]\<rparr>))
      else Inr s)"

text \<open>
  \<^verbatim>\<open>
  sv_number = row['SvNumber']
  if sv_number not in existing_connection_nums and sv_number not in sv_numbers_in_batch:
      sv_date = datetime.strptime(row['SvDateInt'], '%b %d, %Y').date() if row.get('SvDateInt') else None
      connections_to_create.append(ConnectionDetails(
          consumer_id=consumer_obj.id, sv_number=sv_number,
          sv_date=sv_date, connection_type=connection_types.get(row['InDocTypeIdDesc']),
          hist_code_description=row.get('HistCodeDescription'),
          num_of_regulators=int(row.get('NoOfDpr', 1))))
      sv_numbers_in_batch.add(sv_number)
  \<close>
\<close>

definition stage_connection ::
  "('f, 'd) pylib \<Rightarrow> ('f, 'd) store \<Rightarrow> nat \<times> consumer \<Rightarrow> row \<Rightarrow> ('f, 'd) staging \<Rightarrow>
     error + ('f, 'd) staging" where
  "stage_connection lib st consumer_obj r s =
     (let sv = SvNumber r in
      if sv \<notin> existing_connection_nums st \<and> sv \<notin> sv_numbers_in_batch s
      then (case (if SvDateInt r \<noteq> [] then map_option Some (strptime_date lib (SvDateInt r))
                  else Some None) of
              None \<Rightarrow> Inl ValueError
            | Some date \<Rightarrow>
                (case py_int (NoOfDpr r) of
                   Inl e \<Rightarrow> Inl e
                 | Inr n \<Rightarrow>
                     Inr (s\<lparr>connections_to_create := connections_to_create s @
                               [\<lparr>consumer_id = fst consumer_obj,
                                 sv_number = sv,
                                 sv_date = date,
                                 connection_type =
                                   map_option fst (by_name (connection_type_tbl st) (InDocTypeIdDesc r)),
                                 hist_code_description = HistCodeDescription r,
                                 num_of_regulators = n,
                                 product = None\<rparr>],
                             sv_numbers_in_batch := insert sv (sv_numbers_in_batch s)\<rparr>)))
      else Inr s)"

text \<open>
  \<^verbatim>\<open>
  consumer_map = {c.consumer_number: c for c in Consumer.objects.all()}
  for _, row in df.iterrows():
      consumer_obj = consumer_map.get(row['ConsumerNumber'])
      if not consumer_obj: continue
      ...
  \<close>
  The store \<open>st\<close> is the one the run started from, \<open>st1\<close> the one after the consumers
  were written (step 4 reads the consumers again).
\<close>

definition consumer_map :: "('f, 'd) store \<Rightarrow> string \<rightharpoonup> (nat \<times> consumer)" where
  "consumer_map st = dict_of (map (\<lambda>c. (consumer_number (snd c), c)) (consumer_tbl st))"

definition stage_row ::
  "('f, 'd) pylib \<Rightarrow> ('f, 'd) store \<Rightarrow> ('f, 'd) store \<Rightarrow> row \<Rightarrow> ('f, 'd) staging \<Rightarrow>
     error + ('f, 'd) staging" where
  "stage_row lib st st1 r s =
     (case consumer_map st1 (ConsumerNumber r) of
        None \<Rightarrow> Inr s
      | Some consumer_obj \<Rightarrow>
          (case stage_variant lib st r (stage_address st consumer_obj r s) of
             Inl e \<Rightarrow> Inl e
           | Inr s' \<Rightarrow> stage_connection lib st consumer_obj r s'))"

fun stage_related_loop ::
  "('f, 'd) pylib \<Rightarrow> ('f, 'd) store \<Rightarrow> ('f, 'd) store \<Rightarrow> row list \<Rightarrow> ('f, 'd) staging \<Rightarrow>
     error + ('f, 'd) staging" where
  "stage_related_loop lib st st1 [] s = Inr s"
| "stage_related_loop lib st st1 (r # rs) s =
     (case stage_row lib st st1 r s of
        Inl e \<Rightarrow> Inl e
      | Inr s' \<Rightarrow> stage_related_loop lib st st1 rs s')"

definition stage_related ::
  "('f, 'd) pylib \<Rightarrow> ('f, 'd) store \<Rightarrow> ('f, 'd) store \<Rightarrow> row list \<Rightarrow> string set \<Rightarrow>
     error + ('f, 'd) staging" where
  "stage_related lib st st1 df new =
     stage_related_loop lib st st1 df
       \<lparr>addresses_to_create = [], contacts_to_create = [], variants_to_create = [],
        connections_to_create = [], new_consumer_numbers = new, sv_numbers_in_batch = {}\<rparr>"

subsection \<open>Step 6: the product links and the writes\<close>

text \<open>
  \<^verbatim>\<open>
  variant_map = {v.product_code: v for v in ProductVariant.objects.all()}
  for conn in connections_to_create:
      prod_code = df.loc[df['SvNumber'] == conn.sv_number, 'ProdCode'].iloc[0]
      conn.product = variant_map.get(prod_code)
  \<close>
  \<open>.iloc[0]\<close> raises \<open>IndexError\<close> when no row of the file has the number.
\<close>

definition variant_map :: "('f, 'd) store \<Rightarrow> string \<rightharpoonup> nat" where
  "variant_map st = dict_of (map (\<lambda>(pk, v). (product_code v, pk)) (variant_tbl st))"

definition link_product ::
  "('f, 'd) store \<Rightarrow> row list \<Rightarrow> 'd connection \<Rightarrow> error + 'd connection" where
  "link_product st df conn =
     (case find (\<lambda>r. SvNumber r = sv_number conn) df of
        None \<Rightarrow> Inl IndexError
      | Some r \<Rightarrow> Inr (conn\<lparr>product := variant_map st (ProdCode r)\<rparr>))"

fun link_products ::
  "('f, 'd) store \<Rightarrow> row list \<Rightarrow> 'd connection list \<Rightarrow> error + 'd connection list" where
  "link_products st df [] = Inr []"
| "link_products st df (conn # conns) =
     (case link_product st df conn of
        Inl e \<Rightarrow> Inl e
      | Inr c \<Rightarrow> (case link_products st df conns of Inl e \<Rightarrow> Inl e | Inr cs \<Rightarrow> Inr (c # cs)))"

text \<open>The five writes, each on its table of the store.\<close>

definition create_consumers ::
  "nat \<Rightarrow> consumer list \<Rightarrow> ('f, 'd) store \<Rightarrow> error option \<times> ('f, 'd) store" where
  "create_consumers n objs st =
     (case bulk_create (insert_row consumer_ok) n (consumer_tbl st) objs of
        (e, tbl) \<Rightarrow> (e, st\<lparr>consumer_tbl := tbl\<rparr>))"

definition create_variants ::
  "nat \<Rightarrow> 'f variant list \<Rightarrow> ('f, 'd) store \<Rightarrow> error option \<times> ('f, 'd) store" where
  "create_variants n objs st =
     (case bulk_create (insert_row variant_ok) n (variant_tbl st) objs of
        (e, tbl) \<Rightarrow> (e, st\<lparr>variant_tbl := tbl\<rparr>))"

definition create_addresses ::
  "nat \<Rightarrow> address list \<Rightarrow> ('f, 'd) store \<Rightarrow> error option \<times> ('f, 'd) store" where
  "create_addresses n objs st =
     (case bulk_create (insert_row unconstrained) n (address_tbl st) objs of
        (e, tbl) \<Rightarrow> (e, st\<lparr>address_tbl := tbl\<rparr>))"

definition create_contacts ::
  "nat \<Rightarrow> contact list \<Rightarrow> ('f, 'd) store \<Rightarrow> error option \<times> ('f, 'd) store" where
  "create_contacts n objs st =
     (case bulk_create (insert_row unconstrained) n (contact_tbl st) objs of
        (e, tbl) \<Rightarrow> (e, st\<lparr>contact_tbl := tbl\<rparr>))"

definition create_connections ::
  "nat \<Rightarrow> 'd connection list \<Rightarrow> ('f, 'd) store \<Rightarrow> error option \<times> ('f, 'd) store" where
  "create_connections n objs st =
     (case bulk_create (insert_row connection_ok) n (connection_tbl st) objs of
        (e, tbl) \<Rightarrow> (e, st\<lparr>connection_tbl := tbl\<rparr>))"

text \<open>
  The body of \<open>Command.handle\<close>, with the batch size as a parameter. It returns the
  exception that ended it, if any, and the store as the body left it: the writes made
  before an exception are there.
  \<^verbatim>\<open>
  Consumer.objects.bulk_create(consumers_to_create, batch_size=2000)
  ...
  if variants_to_create:
      ProductVariant.objects.bulk_create(list(variants_to_create.values()), batch_size=2000)
  ...
  if addresses_to_create: Address.objects.bulk_create(addresses_to_create, batch_size=2000)
  if contacts_to_create: Contact.objects.bulk_create(contacts_to_create, batch_size=2000)
  if connections_to_create: ConnectionDetails.objects.bulk_create(connections_to_create, batch_size=2000)
  \<close>
\<close>

definition write_related ::
  "nat \<Rightarrow> row list \<Rightarrow> ('f, 'd) staging \<Rightarrow> ('f, 'd) store \<Rightarrow> error option \<times> ('f, 'd) store" where
  "write_related n df s st1 =
     (case (if variants_to_create s \<noteq> [] then create_variants n (map snd (variants_to_create s)) st1
            else (None, st1)) of
        (Some e, st2) \<Rightarrow> (Some e, st2)
      | (None, st2) \<Rightarrow>
          (case link_products st2 df (connections_to_create s) of
             Inl e \<Rightarrow> (Some e, st2)
           | Inr conns \<Rightarrow>
               (case (if addresses_to_create s \<noteq> [] then create_addresses n (addresses_to_create s) st2
                      else (None, st2)) of
                  (Some e, st3) \<Rightarrow> (Some e, st3)
                | (None, st3) \<Rightarrow>
                    (case (if contacts_to_create s \<noteq> [] then create_contacts n (contacts_to_create s) st3
                           else (None, st3)) of
                       (Some e, st4) \<Rightarrow> (Some e, st4)
                     | (None, st4) \<Rightarrow>
                         (if conns \<noteq> [] then create_connections n conns st4 else (None, st4))))))"

definition handle_body ::
  "('f, 'd) pylib \<Rightarrow> nat \<Rightarrow> row list \<Rightarrow> ('f, 'd) store \<Rightarrow> error option \<times> ('f, 'd) store" where
  "handle_body lib n df st =
     (case stage_consumers lib st df of
        Inl e \<Rightarrow> (Some e, st)
      | Inr (consumers_to_create, new) \<Rightarrow>
          (case create_consumers n consumers_to_create st of
             (Some e, st1) \<Rightarrow> (Some e, st1)
           | (None, st1) \<Rightarrow>
               (case stage_related lib st st1 df new of
                  Inl e \<Rightarrow> (Some e, st1)
                | Inr s \<Rightarrow> write_related n df s st1)))"

text \<open>\<open>Command.handle\<close>: the body under \<^verbatim>\<open>@transaction.atomic\<close>, with \<open>batch_size=2000\<close>.\<close>

definition populate_consumers ::
  "('f, 'd) pylib \<Rightarrow> row list \<Rightarrow> ('f, 'd) store \<Rightarrow> error option \<times> ('f, 'd) store" where
  "populate_consumers lib df st = atomic (handle_body lib 2000 df) st"



section \<open>populate\_consumers\_route\<close>

text \<open>
  \<^verbatim>\<open>
  consumer_map = {c.consumer_number: c for c in Consumer.objects.all()}
  route_map = {r.area_code: r for r in Route.objects.all()}
  assigned_consumer_ids = set(ConsumerRouteAssignment.objects.values_list('consumer_id', flat=True))
  \<close>
\<close>

definition route_map :: "('f, 'd) store \<Rightarrow> string \<rightharpoonup> (nat \<times> route)" where
  "route_map st = dict_of (map (\<lambda>r. (area_code (snd r), r)) (route_tbl st))"

definition assigned_consumer_ids :: "('f, 'd) store \<Rightarrow> nat set" where
  "assigned_consumer_ids st = set (map assigned_consumer (assignment_tbl st))"

record route_run =
  assignments_to_create :: "assignment list"
  processed_consumer_ids_in_batch :: "nat set"
  skipped_already_assigned :: nat
  skipped_missing_data :: nat

text \<open>
  One turn of the loop over the rows:
  \<^verbatim>\<open>
  consumer_number = row.get('ConsumerNumber'); area_code_desc = row.get('AreaCodeDesc')
  if not consumer_number or not area_code_desc:
      skipped_missing_data += 1; continue
  area_code = area_code_desc.split('-')[0].strip()
  consumer_obj = consumer_map.get(consumer_number); route_obj = route_map.get(area_code)
  if not consumer_obj or not route_obj:
      skipped_missing_data += 1; continue
  if consumer_obj.id in assigned_consumer_ids or consumer_obj.id in processed_consumer_ids_in_batch:
      skipped_already_assigned += 1; continue
  assignments_to_create.append(ConsumerRouteAssignment(consumer=consumer_obj, route=route_obj))
  processed_consumer_ids_in_batch.add(consumer_obj.id)
  \<close>
\<close>

definition resolve_row :: "('f, 'd) store \<Rightarrow> row \<Rightarrow> (nat \<times> nat) option" where
  "resolve_row st r =
     (if ConsumerNumber r = [] \<or> AreaCodeDesc r = [] then None
      else (case (consumer_map st (ConsumerNumber r),
                  route_map st (py_strip (py_split_head (AreaCodeDesc r)))) of
              (Some consumer_obj, Some route_obj) \<Rightarrow> Some (fst consumer_obj, fst route_obj)
            | _ \<Rightarrow> None))"

definition assign_row :: "('f, 'd) store \<Rightarrow> row \<Rightarrow> route_run \<Rightarrow> route_run" where
  "assign_row st r run =
     (case resolve_row st r of
        None \<Rightarrow> run\<lparr>skipped_missing_data := skipped_missing_data run + 1\<rparr>
      | Some (cid, rid) \<Rightarrow>
          if cid \<in> assigned_consumer_ids st \<or> cid \<in> processed_consumer_ids_in_batch run
          then run\<lparr>skipped_already_assigned := skipped_already_assigned run + 1\<rparr>
          else run\<lparr>assignments_to_create := assignments_to_create run @
                       [\<lparr>assigned_consumer = cid, assigned_route = rid\<rparr>],
                    processed_consumer_ids_in_batch := insert cid (processed_consumer_ids_in_batch run)\<rparr>)"

definition stage_assignments :: "('f, 'd) store \<Rightarrow> row list \<Rightarrow> route_run" where
  "stage_assignments st df =
     fold (assign_row st) df
       \<lparr>assignments_to_create = [], processed_consumer_ids_in_batch = {},
        skipped_already_assigned = 0, skipped_missing_data = 0\<rparr>"

text \<open>
  The primary key of an assignment is its consumer (\<open>OneToOneField(..., primary_key=True)\<close>):
  a second row for one consumer violates it.
\<close>

definition insert_assignment :: "assignment list \<Rightarrow> assignment \<Rightarrow> error + assignment list" where
  "insert_assignment tbl a =
     (if assigned_consumer a \<in> set (map assigned_consumer tbl) then Inl IntegrityError
      else Inr (tbl @ [a]))"

text \<open>
  \<^verbatim>\<open>
  if assignments_to_create:
      try:
          ConsumerRouteAssignment.objects.bulk_create(assignments_to_create, batch_size=2000)
      except Exception as e:
          self.stderr.write(...)
  \<close>
  The command reports an exception of the write and goes on to the summary; the transaction
  of \<open>handle\<close> is then rolled back when \<open>handle\<close> returns. The result is the summary
  (the final loop state) and the store after the command.
\<close>

definition populate_consumers_route ::
  "row list \<Rightarrow> ('f, 'd) store \<Rightarrow> route_run \<times> ('f, 'd) store" where
  "populate_consumers_route df st =
     (let run = stage_assignments st df in
      if assignments_to_create run \<noteq> []
      then (case bulk_create insert_assignment 2000 (assignment_tbl st) (assignments_to_create run) of
              (None, tbl) \<Rightarrow> (run, st\<lparr>assignment_tbl := tbl\<rparr>)
            | (Some e, tbl) \<Rightarrow> (run, st))
      else (run, st))"

text \<open>
  The loop in closed form, for the statements below: the rows that resolve to a consumer and
  a route, without those whose consumer is already assigned or staged, taking the first row
  of each consumer; the rows left over of those that resolve are counted as already
  assigned, the rows that do not resolve as missing data.
\<close>

definition new_assignment :: "nat \<times> nat \<Rightarrow> assignment" where
  "new_assignment p = \<lparr>assigned_consumer = fst p, assigned_route = snd p\<rparr>"

definition staged_run ::
  "('f, 'd) store \<Rightarrow> row list \<Rightarrow> route_run \<Rightarrow> route_run" where
  "staged_run st df run =
     (let resolved = List.map_filter (resolve_row st) df;
          taken = assigned_consumer_ids st \<union> processed_consumer_ids_in_batch run;
          fresh = drop_duplicates fst (filter (\<lambda>p. fst p \<notin> taken) resolved)
      in \<lparr>assignments_to_create = assignments_to_create run @ map new_assignment fresh,
          processed_consumer_ids_in_batch = processed_consumer_ids_in_batch run \<union> fst ` set fresh,
          skipped_already_assigned =
            skipped_already_assigned run + (length resolved - length fresh),
          skipped_missing_data =
            skipped_missing_data run + length (filter (\<lambda>r. resolve_row st r = None) df)\<rparr>)"


section \<open>validate\_consumer\_addresses\<close>

text \<open>
  \<open>process_csv\<close>: the rows are read with \<open>csv.DictReader\<close>, which gives every row a value
  for each column of the header: the text of the cell, or \<open>None\<close> for a cell that a short
  line does not have.
\<close>

record csv_row =
  csv_ConsumerNumber :: "string option"
  csv_AreaCodeDesc :: "string option"
  csv_Address :: "string option"

text \<open>
  \<^verbatim>\<open>row.get(col, '').strip()\<close>: the column is in the row, so the default is not used;
  on a \<open>None\<close> cell \<open>.strip()\<close> raises \<open>AttributeError\<close>.
\<close>

definition strip_cell :: "string option \<Rightarrow> error + string" where
  "strip_cell c = (case c of None \<Rightarrow> Inl AttributeError | Some s \<Rightarrow> Inr (py_strip s))"

text \<open>
  The three cells are stripped, rows with an empty one are skipped, rows of another area are
  skipped, and of the rows of one consumer the first stays. \<open>consumers_by_area\<close> is a dict
  of ordered dicts; the model keeps both as association lists in insertion order.
  \<^verbatim>\<open>
  if consumer_number not in consumers_by_area[area_code_desc]:
      consumers_by_area[area_code_desc][consumer_number] = address
  \<close>
\<close>

definition add_consumer ::
  "string \<Rightarrow> string \<Rightarrow> string \<Rightarrow> (string \<times> (string \<times> string) list) list \<Rightarrow>
     (string \<times> (string \<times> string) list) list" where
  "add_consumer area cn addr d =
     (case map_of d area of
        None \<Rightarrow> d @ [(area, [(cn, addr)])]
      | Some consumers \<Rightarrow>
          if cn \<in> fst ` set consumers then d
          else map (\<lambda>(a, cs). if a = area then (a, cs @ [(cn, addr)]) else (a, cs)) d)"

definition process_row ::
  "string \<Rightarrow> csv_row \<Rightarrow> (string \<times> (string \<times> string) list) list \<Rightarrow>
     error + (string \<times> (string \<times> string) list) list" where
  "process_row area_code_desc_filter r d =
     (case strip_cell (csv_ConsumerNumber r) of
        Inl e \<Rightarrow> Inl e
      | Inr cn \<Rightarrow>
          (case strip_cell (csv_AreaCodeDesc r) of
             Inl e \<Rightarrow> Inl e
           | Inr area \<Rightarrow>
               (case strip_cell (csv_Address r) of
                  Inl e \<Rightarrow> Inl e
                | Inr addr \<Rightarrow>
                    Inr (if cn = [] \<or> area = [] \<or> addr = [] then d
                         else if area \<noteq> area_code_desc_filter then d
                         else add_consumer area cn addr d))))"

fun process_rows ::
  "string \<Rightarrow> csv_row list \<Rightarrow> (string \<times> (string \<times> string) list) list \<Rightarrow>
     error + (string \<times> (string \<times> string) list) list" where
  "process_rows area_code_desc_filter [] d = Inr d"
| "process_rows area_code_desc_filter (r # rs) d =
     (case process_row area_code_desc_filter r d of
        Inl e \<Rightarrow> Inl e
      | Inr d' \<Rightarrow> process_rows area_code_desc_filter rs d')"

definition process_csv ::
  "csv_row list \<Rightarrow> string \<Rightarrow> error + (string \<times> (string \<times> string) list) list" where
  "process_csv df area_code_desc_filter = process_rows area_code_desc_filter df []"

text \<open>
  \<open>parse_area_code_desc\<close>: split on the first hyphen only; a text without a hyphen raises
  \<open>CommandError\<close>.
\<close>

definition parse_area_code_desc :: "string \<Rightarrow> error + string \<times> string" where
  "parse_area_code_desc s =
     (case py_split_once s of
        [a, b] \<Rightarrow> Inr (py_strip a, py_strip b)
      | _ \<Rightarrow> Inl CommandError)"

text \<open>
  \<open>find_route\<close>: \<^verbatim>\<open>Route.objects.get(area_code=..., area_code_description=...)\<close>,
  \<open>None\<close> when there is none and the first one when there are several.
\<close>

definition find_route :: "('f, 'd) store \<Rightarrow> string \<Rightarrow> string \<Rightarrow> (nat \<times> route) option" where
  "find_route st code description =
     find (\<lambda>r. area_code (snd r) = code \<and> area_code_description (snd r) = description)
       (route_tbl st)"

text \<open>\<open>get_route_areas\<close>: the names of the route's areas, in upper case.\<close>

definition get_route_areas :: "('f, 'd) store \<Rightarrow> nat \<times> route \<Rightarrow> string list" where
  "get_route_areas st route_obj =
     map (\<lambda>a. py_upper (area_name (snd a)))
       (filter (\<lambda>a. area_route (snd a) = fst route_obj) (route_area_tbl st))"

text \<open>
  \<open>validate_consumers\<close>:
  \<^verbatim>\<open>
  for consumer_number, address in consumers:
      address_upper = address.upper()
      area_found = any(area in address_upper for area in route_areas)
      if not area_found:
          invalid_consumers.append((consumer_number, address))
  \<close>
\<close>

fun validate_consumers :: "(string \<times> string) list \<Rightarrow> string list \<Rightarrow> (string \<times> string) list" where
  "validate_consumers [] route_areas = []"
| "validate_consumers ((cn, addr) # consumers) route_areas =
     (let address_upper = py_upper addr;
          area_found = list_ex (\<lambda>area. py_in area address_upper) route_areas
      in if \<not> area_found then (cn, addr) # validate_consumers consumers route_areas
         else validate_consumers consumers route_areas)"

text \<open>
  The loop of \<open>handle\<close> over the groups of \<open>consumers_by_area\<close>: a group whose route is
  not found is passed over, and so is a group whose route has no area
  (\<^verbatim>\<open>if not route_areas: ... continue\<close>); the consumers of the other groups are
  validated.
\<close>

fun validate_groups ::
  "('f, 'd) store \<Rightarrow> (string \<times> (string \<times> string) list) list \<Rightarrow> (string \<times> string) list \<Rightarrow>
     error + (string \<times> string) list" where
  "validate_groups st [] all_invalid_consumers = Inr all_invalid_consumers"
| "validate_groups st ((area_code_desc, consumers) # groups) all_invalid_consumers =
     (case parse_area_code_desc area_code_desc of
        Inl e \<Rightarrow> Inl e
      | Inr (code, description) \<Rightarrow>
          (case find_route st code description of
             None \<Rightarrow> validate_groups st groups all_invalid_consumers
           | Some route_obj \<Rightarrow>
               let route_areas = get_route_areas st route_obj in
               if route_areas = [] then validate_groups st groups all_invalid_consumers
               else validate_groups st groups
                      (all_invalid_consumers @ validate_consumers consumers route_areas)))"

text \<open>
  What the command shows: that there is no data for the area, that all addresses are valid
  (with the number of records), or the table of the invalid consumers (with the number of
  records).
\<close>

datatype validation =
  NoData
| AllValid nat
| InvalidAddresses "(string \<times> string) list" nat

text \<open>
  \<open>Command.handle\<close>. Any exception of the body (a \<open>None\<close> cell, a filter without a
  hyphen) is raised again as \<open>CommandError\<close>. The store is returned as the command leaves
  it: the command only reads.
\<close>

definition validate_consumer_addresses ::
  "csv_row list \<Rightarrow> string \<Rightarrow> ('f, 'd) store \<Rightarrow> (error + validation) \<times> ('f, 'd) store" where
  "validate_consumer_addresses df area_code_desc_filter st =
     (case process_csv df area_code_desc_filter of
        Inl e \<Rightarrow> (Inl CommandError, st)
      | Inr consumers_by_area \<Rightarrow>
          if consumers_by_area = [] then (Inr NoData, st)
          else (case validate_groups st consumers_by_area [] of
                  Inl e \<Rightarrow> (Inl CommandError, st)
                | Inr all_invalid_consumers \<Rightarrow>
                    let total_consumers = sum_list (map (\<lambda>g. length (snd g)) consumers_by_area) in
                    if all_invalid_consumers \<noteq> []
                    then (Inr (InvalidAddresses all_invalid_consumers total_consumers), st)
                    else (Inr (AllValid total_consumers), st)))"

text \<open>
  For the statements below: the stripped cells of a row that has all three, the
  (consumer number, address) pairs of the rows that \<open>process_csv\<close> keeps, before the
  duplicates of a consumer are dropped, and the consumers a result shows as invalid.
\<close>

definition stripped_cells :: "csv_row \<Rightarrow> (string \<times> string \<times> string) option" where
  "stripped_cells r =
     (case (csv_ConsumerNumber r, csv_AreaCodeDesc r, csv_Address r) of
        (Some cn, Some area, Some addr) \<Rightarrow> Some (py_strip cn, py_strip area, py_strip addr)
      | _ \<Rightarrow> None)"

definition kept_pairs :: "csv_row list \<Rightarrow> string \<Rightarrow> (string \<times> string) list" where
  "kept_pairs df filt =
     map (\<lambda>t. (fst t, snd (snd t)))
       (filter (\<lambda>t. fst t \<noteq> [] \<and> fst (snd t) \<noteq> [] \<and> snd (snd t) \<noteq> [] \<and> fst (snd t) = filt)
          (List.map_filter stripped_cells df))"

definition flagged :: "error + validation \<Rightarrow> (string \<times> string) list" where
  "flagged res = (case res of Inr (InvalidAddresses invalid n) \<Rightarrow> invalid | _ \<Rightarrow> [])"

text \<open>
  A row with all three cells; one turn of \<open>process_csv\<close> on the stripped cells of such a
  row; the pairs kept of a list of stripped cells.
\<close>

definition has_all_cells :: "csv_row \<Rightarrow> bool" where
  "has_all_cells r =
     (csv_ConsumerNumber r \<noteq> None \<and> csv_AreaCodeDesc r \<noteq> None \<and> csv_Address r \<noteq> None)"

definition keep_step ::
  "string \<Rightarrow> string \<times> string \<times> string \<Rightarrow> (string \<times> (string \<times> string) list) list \<Rightarrow>
     (string \<times> (string \<times> string) list) list" where
  "keep_step filt t d =
     (if fst t = [] \<or> fst (snd t) = [] \<or> snd (snd t) = [] then d
      else if fst (snd t) \<noteq> filt then d
      else add_consumer (fst (snd t)) (fst t) (snd (snd t)) d)"

definition kept_of :: "string \<Rightarrow> (string \<times> string \<times> string) list \<Rightarrow> (string \<times> string) list" where
  "kept_of filt ts =
     map (\<lambda>t. (fst t, snd (snd t)))
       (filter (\<lambda>t. fst t \<noteq> [] \<and> fst (snd t) \<noteq> [] \<and> snd (snd t) \<noteq> [] \<and> fst (snd t) = filt) ts)"

section \<open>Example inputs\<close>

text \<open>Ration cards: \<open>R1\<close> is shared by two consumers, \<open>R2\<close> is repeated for one consumer.\<close>

definition ex_ration_rows :: "row list" where
  "ex_ration_rows =
     [blank_row\<lparr>Rationcardno := ''R1'', ConsumerNumber := ''C1''\<rparr>,
      blank_row\<lparr>Rationcardno := ''R1'', ConsumerNumber := ''C2''\<rparr>,
      blank_row\<lparr>Rationcardno := ''R2'', ConsumerNumber := ''C3''\<rparr>,
      blank_row\<lparr>Rationcardno := ''R2'', ConsumerNumber := ''C3''\<rparr>,
      blank_row\<lparr>ConsumerNumber := ''C4''\<rparr>,
      blank_row\<lparr>ConsumerNumber := ''C5''\<rparr>]"

text \<open>
  Blue books: \<open>7\<close> is carried by the consumers \<open>C1\<close> and \<open>C4\<close>, \<open>9\<close> by \<open>C2\<close>, \<open>C3\<close>
  and \<open>C5\<close> (the second row of \<open>C5\<close> does not count), \<open>5\<close> by \<open>C6\<close> alone.
\<close>

definition ex_bluebook_rows :: "row list" where
  "ex_bluebook_rows =
     [blank_row\<lparr>ConsumerNumber := ''C1'', BlueBookNumber := ''7''\<rparr>,
      blank_row\<lparr>ConsumerNumber := ''C2'', BlueBookNumber := ''9''\<rparr>,
      blank_row\<lparr>ConsumerNumber := ''C3'', BlueBookNumber := ''9''\<rparr>,
      blank_row\<lparr>ConsumerNumber := ''C4'', BlueBookNumber := ''7''\<rparr>,
      blank_row\<lparr>ConsumerNumber := ''C5'', BlueBookNumber := ''9''\<rparr>,
      blank_row\<lparr>ConsumerNumber := ''C5'', BlueBookNumber := ''7''\<rparr>,
      blank_row\<lparr>ConsumerNumber := ''C6'', BlueBookNumber := ''5''\<rparr>]"

text \<open>
  Routes: \<open>R001\<close> with three areas, \<open>R002\<close> with none. The rows are those of the
  command's own usage notes, with a lower-case address and a row of the second route.
\<close>

definition ex_route_store :: "(nat, nat) store" where
  "ex_route_store =
     \<lparr>consumer_tbl = [], connection_tbl = [], variant_tbl = [], address_tbl = [], contact_tbl = [],
      category_tbl = [], consumer_type_tbl = [], connection_type_tbl = [],
      product_tbl = [], unit_tbl = [], consumer_content_type = 7,
      route_tbl = [(1, \<lparr>area_code = ''R001'', area_code_description = ''North Zone''\<rparr>),
                   (2, \<lparr>area_code = ''R002'', area_code_description = ''South Zone''\<rparr>)],
      route_area_tbl = [(1, \<lparr>area_route = 1, area_name = ''Jagtial''\<rparr>),
                        (2, \<lparr>area_route = 1, area_name = ''Korutla''\<rparr>),
                        (3, \<lparr>area_route = 1, area_name = ''Metpally''\<rparr>)],
      assignment_tbl = []\<rparr>"

definition ex_address_rows :: "csv_row list" where
  "ex_address_rows =
     [\<lparr>csv_ConsumerNumber = Some ''C001'', csv_AreaCodeDesc = Some ''R001-North Zone'',
       csv_Address = Some ''123 jagtial road''\<rparr>,
      \<lparr>csv_ConsumerNumber = Some ''C002'', csv_AreaCodeDesc = Some ''R001-North Zone'',
       csv_Address = Some ''456 Main Street, Hyderabad''\<rparr>,
      \<lparr>csv_ConsumerNumber = Some ''C003'', csv_AreaCodeDesc = Some ''R001-North Zone'',
       csv_Address = Some ''789 Korutla Lane''\<rparr>,
      \<lparr>csv_ConsumerNumber = Some ''C001'', csv_AreaCodeDesc = Some ''R001-North Zone'',
       csv_Address = Some ''Duplicate entry''\<rparr>,
      \<lparr>csv_ConsumerNumber = Some ''C004'', csv_AreaCodeDesc = Some ''R002-South Zone'',
       csv_Address = Some ''5 Lake View''\<rparr>]"

text \<open>
  Route assignments: three consumers, of whom \<open>C3\<close> has a route already; the file names
  \<open>C1\<close> twice with two different routes, an unknown consumer and an unknown route.
\<close>

definition ex_assign_store :: "(nat, nat) store" where
  "ex_assign_store =
     \<lparr>consumer_tbl =
        [(1, \<lparr>consumer_number = ''C1'', consumer_name = ''Asha'', father_name = [], mother_name = [],
              ration_card_num = None, lpg_id = None, blue_book = None, is_kyc_done = False,
              category = Some 1, consumer_type = Some 1\<rparr>),
         (2, \<lparr>consumer_number = ''C2'', consumer_name = ''Bala'', father_name = [], mother_name = [],
              ration_card_num = None, lpg_id = None, blue_book = None, is_kyc_done = False,
              category = Some 1, consumer_type = Some 1\<rparr>),
         (3, \<lparr>consumer_number = ''C3'', consumer_name = ''Chitra'', father_name = [], mother_name = [],
              ration_card_num = None, lpg_id = None, blue_book = None, is_kyc_done = False,
              category = Some 1, consumer_type = Some 1\<rparr>)],
      connection_tbl = [], variant_tbl = [], address_tbl = [], contact_tbl = [],
      category_tbl = [(1, ''General'')], consumer_type_tbl = [(1, ''Domestic'')],
      connection_type_tbl = [], product_tbl = [], unit_tbl = [], consumer_content_type = 7,
      route_tbl = [(1, \<lparr>area_code = ''R001'', area_code_description = ''North Zone''\<rparr>),
                   (2, \<lparr>area_code = ''R002'', area_code_description = ''South Zone''\<rparr>)],
      route_area_tbl = [],
      assignment_tbl = [\<lparr>assigned_consumer = 3, assigned_route = 1\<rparr>]\<rparr>"

definition ex_assign_rows :: "row list" where
  "ex_assign_rows =
     [blank_row\<lparr>ConsumerNumber := ''C1'', AreaCodeDesc := ''R001-North Zone''\<rparr>,
      blank_row\<lparr>ConsumerNumber := ''C1'', AreaCodeDesc := ''R002-South Zone''\<rparr>,
      blank_row\<lparr>ConsumerNumber := ''C3'', AreaCodeDesc := ''R002-South Zone''\<rparr>,
      blank_row\<lparr>ConsumerNumber := ''C9'', AreaCodeDesc := ''R001-North Zone''\<rparr>,
      blank_row\<lparr>ConsumerNumber := ''C2'', AreaCodeDesc := ''R009-West Zone''\<rparr>,
      blank_row\<lparr>ConsumerNumber := ''C2'', AreaCodeDesc := ''R002 -South-Zone''\<rparr>]"

text \<open>
  The import: a store with the registries filled, one consumer \<open>C0\<close> with its connection
  \<open>S0\<close> and the variant \<open>P0\<close>, and a library that knows the floats and the date of the
  example cells (a float is kept in tenths). The file has two rows of a new consumer \<open>C1\<close>
  that share the connection number \<open>S1\<close> and differ in the other cells, and a row of \<open>C0\<close>
  whose category is not in the registry.
\<close>

definition ex_lib :: "(nat, nat \<times> nat \<times> nat) pylib" where
  "ex_lib =
     \<lparr>float_of_str = map_of [(''14.2'', 142), (''19'', 190), (''7'', 70)],
      int_of_float = (\<lambda>x. Inr (int (x div 10))),
      str_of_float = (\<lambda>x. if x = 142 then ''14.2'' else if x = 190 then ''19.0'' else ''7.0''),
      strptime_date = map_of [(''Jan 05, 2020'', (2020, 1, 5))]\<rparr>"

definition ex_store :: "(nat, nat \<times> nat \<times> nat) store" where
  "ex_store =
     \<lparr>consumer_tbl =
        [(1, \<lparr>consumer_number = ''C0'', consumer_name = ''Devi'', father_name = [], mother_name = [],
              ration_card_num = None, lpg_id = None, blue_book = None, is_kyc_done = True,
              category = Some 1, consumer_type = Some 1\<rparr>)],
      connection_tbl =
        [(1, \<lparr>consumer_id = 1, sv_number = ''S0'', sv_date = None, connection_type = Some 1,
              hist_code_description = [], num_of_regulators = 1, product = Some 1\<rparr>)],
      variant_tbl =
        [(1, \<lparr>product_code = ''P0'', variant_name = ''Domestic Cylinder 14.2kg'',
              variant_product = Some 1, variant_unit = Some 1, variant_size = 142,
              variant_type = ''DOMESTIC''\<rparr>)],
      address_tbl = [], contact_tbl = [],
      category_tbl = [(1, ''General'')],
      consumer_type_tbl = [(1, ''Domestic''), (2, ''Commercial'')],
      connection_type_tbl = [(1, ''SV'')],
      product_tbl = [(1, ''LPG Cylinder'')],
      unit_tbl = [(1, ''kg'')],
      consumer_content_type = 7,
      route_tbl = [], route_area_tbl = [], assignment_tbl = []\<rparr>"

definition ex_row_new :: row where
  "ex_row_new =
     blank_row\<lparr>ConsumerNumber := ''C1'', ConsumerName := ''Asha'', Category := ''General'',
       ConsumerTypeIdDesc := ''Domestic'', LPGId := ''7'', BlueBookNumber := ''12'',
       ProdCode := ''P1'', NoOfCylinder := ''14.2'', SvNumber := ''S1'',
       SvDateInt := ''Jan 05, 2020'', InDocTypeIdDesc := ''SV'', NoOfDpr := ''1'',
       Address := ''1 Main Road'', MobileNumber := ''900''\<rparr>"

definition ex_row_again :: row where
  "ex_row_again =
     blank_row\<lparr>ConsumerNumber := ''C1'', ConsumerName := ''Asha again'', Category := ''General'',
       ConsumerTypeIdDesc := ''Commercial'', LPGId := ''7'', BlueBookNumber := ''12.5'',
       ProdCode := ''P2'', NoOfCylinder := ''19'', SvNumber := ''S1'',
       InDocTypeIdDesc := ''SV'', NoOfDpr := ''2'',
       Address := ''2 Main Road'', MobileNumber := ''901''\<rparr>"

definition ex_row_known :: row where
  "ex_row_known =
     blank_row\<lparr>ConsumerNumber := ''C0'', ConsumerName := ''Devi'', Category := ''Unknown'',
       ConsumerTypeIdDesc := ''Domestic'', ProdCode := ''P0'', SvNumber := ''S0''\<rparr>"

definition ex_rows :: "row list" where
  "ex_rows = [ex_row_new, ex_row_again, ex_row_known]"

text \<open>
  A file whose first row has no cylinder size (\<open>float('')\<close> raises in step 5, after the
  consumers were written) and whose second row is a second new consumer.
\<close>

definition ex_rows_bad_size :: "row list" where
  "ex_rows_bad_size =
     [ex_row_new\<lparr>NoOfCylinder := []\<rparr>,
      ex_row_new\<lparr>ConsumerNumber := ''C2'', LPGId := ''19''\<rparr>]"




section \<open>Properties of the table operations\<close>

lemma find_filter_conj:
  "find P (filter Q xs) = find (\<lambda>x. P x \<and> Q x) xs"
  by (induction xs) auto

lemma drop_duplicates_filter_key:
  "filter (\<lambda>x. key x = k) (drop_duplicates key rs) =
     (case find (\<lambda>x. key x = k) rs of None \<Rightarrow> [] | Some r \<Rightarrow> [r])"
proof (induction key rs rule: drop_duplicates.induct)
  case (1 key)
  show ?case by simp
next
  case (2 key r rs)
  show ?case
  proof (cases "key r = k")
    case True
    have "find (\<lambda>x. key x = k \<and> key x \<noteq> key r) rs = None"
      using True by (simp add: find_None_iff)
    with 2 True show ?thesis by (simp add: find_filter_conj)
  next
    case False
    have "(\<lambda>x. key x = k \<and> key x \<noteq> key r) = (\<lambda>x. key x = k)"
      using False by auto
    with 2 False show ?thesis by (simp add: find_filter_conj)
  qed
qed

lemma set_drop_duplicates_subset: "set (drop_duplicates key rs) \<subseteq> set rs"
  by (induction key rs rule: drop_duplicates.induct) auto

lemma keys_drop_duplicates: "key ` set (drop_duplicates key rs) = key ` set rs"
proof (induction key rs rule: drop_duplicates.induct)
  case (1 key)
  show ?case by simp
next
  case (2 key r rs)
  have "key ` set (r # rs) = insert (key r) (key ` set (filter (\<lambda>x. key x \<noteq> key r) rs))"
    by auto
  with 2 show ?case by simp
qed

lemma distinct_keys_drop_duplicates: "distinct (map key (drop_duplicates key rs))"
proof (induction key rs rule: drop_duplicates.induct)
  case (1 key)
  show ?case by simp
next
  case (2 key r rs)
  have "key r \<notin> key ` set (filter (\<lambda>x. key x \<noteq> key r) rs)" by auto
  then have "key r \<notin> key ` set (drop_duplicates key (filter (\<lambda>x. key x \<noteq> key r) rs))"
    by (simp add: keys_drop_duplicates)
  with 2 show ?case by simp
qed

lemma nunique_card: "nunique xs = card (set xs)"
  by (simp add: nunique_def length_remdups_card_conv)

lemma groupby_keys: "set (map fst (groupby key rows)) = key ` set rows"
  by (simp add: groupby_def comp_def)

lemma groupby_nunique_set:
  "set (groupby_nunique key col rows) =
     (\<lambda>k. (k, card (col ` {r \<in> set rows. key r = k}))) ` key ` set rows"
proof -
  have "\<And>k. set (map col (filter (\<lambda>r. key r = k) rows)) = col ` {r \<in> set rows. key r = k}"
    by auto
  then show ?thesis
    by (simp add: groupby_nunique_def groupby_def nunique_card image_image)
qed

lemma true_duplicates_keys:
  "set (map fst (true_duplicates df)) =
     {k. k \<noteq> [] \<and> 1 < card (ConsumerNumber ` {r \<in> set df. Rationcardno r = k})}"
proof -
  let ?f = "filter (\<lambda>r. Rationcardno r \<noteq> []) df"
  have same: "\<And>k. k \<noteq> [] \<Longrightarrow> {r \<in> set ?f. Rationcardno r = k} = {r \<in> set df. Rationcardno r = k}"
    by auto
  have sel: "\<And>K c. fst ` {x \<in> (\<lambda>k. (k, c k)) ` K. case x of (k, n) \<Rightarrow> 1 < n} =
                  {k \<in> K. (1::nat) < c k}"
    by force
  have "set (map fst (true_duplicates df)) =
        {k \<in> Rationcardno ` set ?f. 1 < card (ConsumerNumber ` {r \<in> set ?f. Rationcardno r = k})}"
    unfolding true_duplicates_def Let_def set_map set_filter groupby_nunique_set
    by (rule sel)
  also have "\<dots> = {k. k \<noteq> [] \<and> 1 < card (ConsumerNumber ` {r \<in> set df. Rationcardno r = k})}"
  proof (intro set_eqI iffI)
    fix k
    assume "k \<in> {k \<in> Rationcardno ` set ?f. 1 < card (ConsumerNumber ` {r \<in> set ?f. Rationcardno r = k})}"
    then have k: "k \<in> Rationcardno ` set ?f"
      and c: "1 < card (ConsumerNumber ` {r \<in> set ?f. Rationcardno r = k})" by auto
    from k have "k \<noteq> []" by auto
    with c same show "k \<in> {k. k \<noteq> [] \<and> 1 < card (ConsumerNumber ` {r \<in> set df. Rationcardno r = k})}"
      by simp
  next
    fix k
    assume "k \<in> {k. k \<noteq> [] \<and> 1 < card (ConsumerNumber ` {r \<in> set df. Rationcardno r = k})}"
    then have k: "k \<noteq> []"
      and c: "1 < card (ConsumerNumber ` {r \<in> set df. Rationcardno r = k})" by auto
    have "{r \<in> set df. Rationcardno r = k} \<noteq> {}"
    proof
      assume "{r \<in> set df. Rationcardno r = k} = {}"
      with c show False by simp
    qed
    then obtain r where "r \<in> set df" "Rationcardno r = k" by auto
    with k have "k \<in> Rationcardno ` set ?f" by auto
    with k c same show "k \<in> {k \<in> Rationcardno ` set ?f. 1 < card (ConsumerNumber ` {r \<in> set ?f. Rationcardno r = k})}"
      by simp
  qed
  finally show ?thesis .
qed

section \<open>The duplicate ration-card report\<close>

lemma report_keys:
  "set (map ration_card (find_duplicate_ration_cards df)) = set (map fst (true_duplicates df))"
proof (cases "true_duplicates df = []")
  case True
  then show ?thesis by (simp add: find_duplicate_ration_cards_def)
next
  case False
  let ?td = "true_duplicates df"
  let ?off = "filter (\<lambda>(i, r). Rationcardno r \<in> set (map fst ?td)) (zip [0 ..< length df] df)"
  have snd_zip: "snd ` set (zip [0 ..< length df] df) = set df"
    by (metis diff_zero length_upt map_snd_zip set_map)
  have "set (map ration_card (find_duplicate_ration_cards df)) =
        set (map fst (groupby (Rationcardno \<circ> snd) ?off))"
    using False by (simp add: find_duplicate_ration_cards_def Let_def comp_def case_prod_beta)
  also have "\<dots> = (Rationcardno \<circ> snd) ` set ?off"
    by (rule groupby_keys)
  also have "\<dots> = Rationcardno ` snd ` set ?off"
    by (simp add: image_comp)
  also have "snd ` set ?off =
      {r \<in> snd ` set (zip [0 ..< length df] df). Rationcardno r \<in> set (map fst ?td)}"
    by force
  also have "Rationcardno `
      {r \<in> snd ` set (zip [0 ..< length df] df). Rationcardno r \<in> set (map fst ?td)}
       = set (map fst ?td) \<inter> Rationcardno ` set df"
    unfolding snd_zip by blast
  also have "\<dots> = set (map fst ?td)"
    by (auto simp: true_duplicates_def Let_def groupby_nunique_set)
  finally show ?thesis .
qed

text \<open>
  C2. In the report of \<open>find_duplicate_ration_cards\<close>, a ration card number is reported
  exactly when it is not blank and the number of distinct \<open>ConsumerNumber\<close> values among
  its rows is greater than 1. A card whose rows all carry the same consumer is therefore
  never reported, however often the row is repeated.
\<close>

theorem ration_card_reported_iff:
  "k \<in> set (map ration_card (find_duplicate_ration_cards df)) \<longleftrightarrow>
     k \<noteq> [] \<and> 1 < card (ConsumerNumber ` {r \<in> set df. Rationcardno r = k})"
  by (simp only: report_keys true_duplicates_keys mem_Collect_eq)

theorem ration_card_reported_iff_witness:
  "''R1'' \<in> set (map ration_card (find_duplicate_ration_cards ex_ration_rows)) \<and>
   1 < card (ConsumerNumber ` {r \<in> set ex_ration_rows. Rationcardno r = ''R1''}) \<and>
   ''R2'' \<notin> set (map ration_card (find_duplicate_ration_cards ex_ration_rows)) \<and>
   \<not> 1 < card (ConsumerNumber ` {r \<in> set ex_ration_rows. Rationcardno r = ''R2''})"
proof -
  have m: "map ration_card (find_duplicate_ration_cards ex_ration_rows) = [''R1'']"
    by code_simp
  show ?thesis
    using ration_card_reported_iff [of "''R1''" ex_ration_rows]
      ration_card_reported_iff [of "''R2''" ex_ration_rows] m
    by simp
qed

section \<open>The shared blue-book report\<close>

lemma sorted_value_counts: "sorted (rev (map snd (value_counts xs)))"
  by (simp add: value_counts_def rev_map [symmetric])

lemma set_value_counts: "set (value_counts xs) = (\<lambda>v. (v, count_list xs v)) ` set xs"
  by (simp add: value_counts_def)

lemma distinct_value_counts: "distinct (map fst (value_counts xs))"
proof -
  let ?ys = "map (\<lambda>v. (v, count_list xs v)) (rev (remdups (rev xs)))"
  have "map fst ?ys = rev (remdups (rev xs))" by (simp add: comp_def)
  then have "distinct (map fst ?ys)" by simp
  then have "distinct ?ys \<and> inj_on fst (set ?ys)" by (simp only: distinct_map)
  then have "distinct (value_counts xs) \<and> inj_on fst (set (value_counts xs))"
    by (simp add: value_counts_def)
  then show ?thesis by (simp only: distinct_map)
qed

lemma sorted_rev_filter:
  "sorted (rev (map snd xs)) \<Longrightarrow> sorted (rev (map snd (filter P xs)))"
proof -
  assume "sorted (rev (map snd xs))"
  then have "sorted (map snd (rev xs))" by (simp add: rev_map)
  then have "sorted (map snd (filter P (rev xs)))" by (rule sorted_filter)
  then show ?thesis by (simp add: rev_map rev_filter)
qed

lemma count_list_map_filter:
  "count_list (map f xs) v = length (filter (\<lambda>x. f x = v) xs)"
  by (induction xs) auto

lemma length_filter_nonblank:
  "length (filter (\<lambda>r. BlueBookNumber r = b) (filter (\<lambda>r. BlueBookNumber r \<noteq> []) xs)) =
     (if b = [] then 0 else length (filter (\<lambda>r. BlueBookNumber r = b) xs))"
  by (induction xs) auto

text \<open>
  C9, as the code has it. The report of \<open>shared_bluebook\<close> lists each blue-book number
  once, with the number of unique consumers (first rows per \<open>ConsumerNumber\<close>) that carry
  it; a number is listed exactly when it is not blank and that count is greater than 1;
  the counts of the listing never increase from one line to the next: the most shared
  number comes first.
\<close>

theorem shared_bluebook_descending:
  "sorted (rev (map snd (shared_bluebook df))) \<and>
   distinct (map fst (shared_bluebook df)) \<and>
   ((b, n) \<in> set (shared_bluebook df) \<longleftrightarrow>
      b \<noteq> [] \<and> 1 < n \<and>
      n = length (filter (\<lambda>r. BlueBookNumber r = b) (drop_duplicates ConsumerNumber df)))"
proof -
  let ?u = "filter (\<lambda>r. BlueBookNumber r \<noteq> []) (drop_duplicates ConsumerNumber df)"
  let ?vc = "value_counts (map BlueBookNumber ?u)"
  have sb: "shared_bluebook df = filter (\<lambda>(b, n). 1 < n) ?vc"
    by (simp add: shared_bluebook_def Let_def)
  have s: "sorted (rev (map snd (shared_bluebook df)))"
    unfolding sb by (rule sorted_rev_filter) (rule sorted_value_counts)
  have d: "distinct (map fst (shared_bluebook df))"
    unfolding sb by (rule distinct_map_filter) (rule distinct_value_counts)
  have len: "length (filter (\<lambda>r. BlueBookNumber r = b) ?u) =
             (if b = [] then 0
              else length (filter (\<lambda>r. BlueBookNumber r = b) (drop_duplicates ConsumerNumber df)))"
    by (rule length_filter_nonblank)
  have m: "(b, n) \<in> set (shared_bluebook df) \<longleftrightarrow>
      b \<noteq> [] \<and> 1 < n \<and>
      n = length (filter (\<lambda>r. BlueBookNumber r = b) (drop_duplicates ConsumerNumber df))"
  proof
    assume "(b, n) \<in> set (shared_bluebook df)"
    then have n1: "1 < n" and bn: "(b, n) \<in> set ?vc" by (auto simp: sb)
    from bn have bu: "b \<in> BlueBookNumber ` set ?u"
      and n: "n = count_list (map BlueBookNumber ?u) b"
      by (auto simp: set_value_counts)
    from bu have "b \<noteq> []" by auto
    with n n1 len show "b \<noteq> [] \<and> 1 < n \<and>
      n = length (filter (\<lambda>r. BlueBookNumber r = b) (drop_duplicates ConsumerNumber df))"
      by (simp add: count_list_map_filter)
  next
    assume a: "b \<noteq> [] \<and> 1 < n \<and>
      n = length (filter (\<lambda>r. BlueBookNumber r = b) (drop_duplicates ConsumerNumber df))"
    then have n: "n = count_list (map BlueBookNumber ?u) b"
      using len by (simp add: count_list_map_filter)
    have "filter (\<lambda>r. BlueBookNumber r = b) ?u \<noteq> []"
    proof
      assume "filter (\<lambda>r. BlueBookNumber r = b) ?u = []"
      then have "length (filter (\<lambda>r. BlueBookNumber r = b) ?u) = 0" by simp
      with len a have "n = 0" by simp
      with a show False by simp
    qed
    then obtain r where "r \<in> set ?u" "BlueBookNumber r = b"
      by (metis (mono_tags, lifting) filter_False)
    then have "b \<in> BlueBookNumber ` set ?u" by blast
    with n have "(b, n) \<in> set ?vc" by (simp add: set_value_counts image_iff)
    with a show "(b, n) \<in> set (shared_bluebook df)" by (simp add: sb)
  qed
  from s d m show ?thesis by blast
qed

theorem shared_bluebook_descending_witness:
  "sorted (rev (map snd (shared_bluebook ex_bluebook_rows))) \<and>
   shared_bluebook ex_bluebook_rows = [(''9'', 3), (''7'', 2)] \<and>
   length (filter (\<lambda>r. BlueBookNumber r = ''9'') (drop_duplicates ConsumerNumber ex_bluebook_rows)) = 3"
proof -
  have e: "shared_bluebook ex_bluebook_rows = [(''9'', 3), (''7'', 2)]"
    by code_simp
  show ?thesis
    using shared_bluebook_descending [of ex_bluebook_rows "''9''" 3] e by simp
qed

text \<open>
  C9, as the claim has it (ascending order, the smallest shared count first), fails: in
  the example the number shared by three consumers is listed before the number shared by
  two.
\<close>

theorem shared_bluebook_not_ascending:
  "map snd (shared_bluebook ex_bluebook_rows) = [3, 2] \<and>
   \<not> sorted (map snd (shared_bluebook ex_bluebook_rows))"
proof -
  have e: "shared_bluebook ex_bluebook_rows = [(''9'', 3), (''7'', 2)]"
    by code_simp
  show ?thesis by (simp add: e)
qed

section \<open>Writes\<close>

lemma chunks_Nil: "chunks n [] = []"
  by (subst chunks.simps) simp

lemma chunks_step: "0 < n \<Longrightarrow> xs \<noteq> [] \<Longrightarrow> chunks n xs = take n xs # chunks n (drop n xs)"
  by (subst chunks.simps) simp

lemma concat_chunks: "0 < n \<Longrightarrow> concat (chunks n xs) = xs"
proof (induction n xs rule: chunks.induct)
  case (1 n xs)
  show ?case
  proof (cases "xs = []")
    case True
    then show ?thesis by (simp add: chunks_Nil)
  next
    case False
    with 1 have "concat (chunks n (drop n xs)) = drop n xs" by simp
    with False 1(2) show ?thesis by (simp add: chunks_step)
  qed
qed

lemma insert_rows_append:
  "insert_rows ins tbl (xs @ ys) =
     (case insert_rows ins tbl xs of Inl e \<Rightarrow> Inl e | Inr tbl' \<Rightarrow> insert_rows ins tbl' ys)"
  by (induction xs arbitrary: tbl) (auto split: sum.splits)

lemma insert_batches_concat:
  "insert_batches ins tbl bs = insert_rows ins tbl (concat bs)"
  by (induction bs arbitrary: tbl) (auto simp: insert_rows_append split: sum.splits)

lemma bulk_create_ok_iff:
  "0 < n \<Longrightarrow> bulk_create ins n tbl objs = (None, tbl') \<longleftrightarrow> insert_rows ins tbl objs = Inr tbl'"
  by (auto simp: bulk_create_def insert_batches_concat concat_chunks split: sum.splits)

lemma bulk_create_failed:
  "bulk_create ins n tbl objs = (Some e, tbl') \<Longrightarrow> tbl' = tbl"
  by (auto simp: bulk_create_def split: if_splits sum.splits)

lemma bulk_create_Nil: "0 < n \<Longrightarrow> bulk_create ins n tbl [] = (None, tbl)"
  by (simp add: bulk_create_ok_iff)

lemma insert_assignments_ok:
  "distinct (map assigned_consumer xs) \<Longrightarrow>
   set (map assigned_consumer xs) \<inter> set (map assigned_consumer tbl) = {} \<Longrightarrow>
   insert_rows insert_assignment tbl xs = Inr (tbl @ xs)"
proof (induction xs arbitrary: tbl)
  case Nil
  then show ?case by simp
next
  case (Cons x xs)
  from Cons.prems have ok: "insert_assignment tbl x = Inr (tbl @ [x])"
    by (auto simp: insert_assignment_def)
  from Cons.prems have "distinct (map assigned_consumer xs)"
    and "set (map assigned_consumer xs) \<inter> set (map assigned_consumer (tbl @ [x])) = {}"
    by auto
  then have "insert_rows insert_assignment (tbl @ [x]) xs = Inr ((tbl @ [x]) @ xs)"
    by (rule Cons.IH)
  with ok show ?case by simp
qed


section \<open>The route assignments\<close>

lemma length_drop_duplicates_filter_le:
  "length (drop_duplicates key (filter P xs)) \<le> length xs"
proof -
  have "length (drop_duplicates key (filter P xs)) =
          card (set (drop_duplicates key (filter P xs)))"
    using distinct_keys_drop_duplicates [of key "filter P xs"]
    by (simp add: distinct_card distinct_map)
  also have "\<dots> \<le> card (set xs)"
    using set_drop_duplicates_subset [of key "filter P xs"]
    by (intro card_mono) auto
  also have "\<dots> \<le> length xs" by (rule card_length)
  finally show ?thesis .
qed

lemma staged_run_skip_missing:
  assumes "resolve_row st r = None"
  shows "staged_run st (r # df) run =
         staged_run st df (run\<lparr>skipped_missing_data := skipped_missing_data run + 1\<rparr>)"
  using assms by (simp add: staged_run_def List.map_filter_simps Let_def)

lemma staged_run_skip_assigned:
  assumes "resolve_row st r = Some (cid, rid)"
    and "cid \<in> assigned_consumer_ids st \<or> cid \<in> processed_consumer_ids_in_batch run"
  shows "staged_run st (r # df) run =
         staged_run st df (run\<lparr>skipped_already_assigned := skipped_already_assigned run + 1\<rparr>)"
proof -
  let ?taken = "assigned_consumer_ids st \<union> processed_consumer_ids_in_batch run"
  let ?resolved = "List.map_filter (resolve_row st) df"
  have "length (drop_duplicates fst (filter (\<lambda>p. fst p \<notin> ?taken) ?resolved)) \<le> length ?resolved"
    by (rule length_drop_duplicates_filter_le)
  with assms show ?thesis
    by (auto simp: staged_run_def List.map_filter_simps Let_def)
qed

lemma staged_run_stage:
  assumes "resolve_row st r = Some (cid, rid)"
    and "\<not> (cid \<in> assigned_consumer_ids st \<or> cid \<in> processed_consumer_ids_in_batch run)"
  shows "staged_run st (r # df) run =
         staged_run st df
           (run\<lparr>assignments_to_create := assignments_to_create run @ [new_assignment (cid, rid)],
               processed_consumer_ids_in_batch := insert cid (processed_consumer_ids_in_batch run)\<rparr>)"
proof -
  let ?A = "assigned_consumer_ids st"
  let ?B = "processed_consumer_ids_in_batch run"
  let ?resolved = "List.map_filter (resolve_row st) df"
  let ?fresh' = "drop_duplicates fst (filter (\<lambda>q. fst q \<notin> ?A \<union> insert cid ?B) ?resolved)"
  have res: "List.map_filter (resolve_row st) (r # df) = (cid, rid) # ?resolved"
    using assms(1) by (simp add: List.map_filter_simps)
  have "filter (\<lambda>q. fst q \<noteq> cid) (filter (\<lambda>q. fst q \<notin> ?A \<union> ?B) ?resolved) =
        filter (\<lambda>q. fst q \<notin> ?A \<union> insert cid ?B) ?resolved"
    unfolding filter_filter by (rule filter_cong) auto
  then have fresh: "drop_duplicates fst (filter (\<lambda>q. fst q \<notin> ?A \<union> ?B) ((cid, rid) # ?resolved)) =
        (cid, rid) # ?fresh'"
    using assms(2) by simp
  have le: "length ?fresh' \<le> length ?resolved"
    by (rule length_drop_duplicates_filter_le)
  have a: "assignments_to_create (staged_run st (r # df) run) =
           (assignments_to_create run @ [new_assignment (cid, rid)]) @ map new_assignment ?fresh'"
    unfolding staged_run_def Let_def res fresh by simp
  have b: "processed_consumer_ids_in_batch (staged_run st (r # df) run) =
           insert cid ?B \<union> fst ` set ?fresh'"
    unfolding staged_run_def Let_def res fresh by simp
  have c: "skipped_already_assigned (staged_run st (r # df) run) =
           skipped_already_assigned run + (length ?resolved - length ?fresh')"
    unfolding staged_run_def Let_def res fresh by simp
  have d: "skipped_missing_data (staged_run st (r # df) run) =
           skipped_missing_data run + length (filter (\<lambda>r. resolve_row st r = None) df)"
    unfolding staged_run_def Let_def using assms(1) by simp
  have "staged_run st (r # df) run =
        \<lparr>assignments_to_create =
           (assignments_to_create run @ [new_assignment (cid, rid)]) @ map new_assignment ?fresh',
         processed_consumer_ids_in_batch = insert cid ?B \<union> fst ` set ?fresh',
         skipped_already_assigned =
           skipped_already_assigned run + (length ?resolved - length ?fresh'),
         skipped_missing_data =
           skipped_missing_data run + length (filter (\<lambda>r. resolve_row st r = None) df)\<rparr>"
    using a b c d by (cases "staged_run st (r # df) run") simp
  also have "\<dots> = staged_run st df
           (run\<lparr>assignments_to_create := assignments_to_create run @ [new_assignment (cid, rid)],
               processed_consumer_ids_in_batch := insert cid ?B\<rparr>)"
    unfolding staged_run_def Let_def by simp
  finally show ?thesis .
qed

lemma fold_assign_row: "fold (assign_row st) df run = staged_run st df run"
proof (induction df arbitrary: run)
  case Nil
  show ?case by (simp add: staged_run_def List.map_filter_simps)
next
  case (Cons r df)
  show ?case
  proof (cases "resolve_row st r")
    case None
    then have "assign_row st r run = run\<lparr>skipped_missing_data := skipped_missing_data run + 1\<rparr>"
      by (simp add: assign_row_def)
    then show ?thesis
      by (simp add: Cons.IH staged_run_skip_missing [OF None])
  next
    case (Some p)
    obtain cid rid where p: "resolve_row st r = Some (cid, rid)"
      using Some by (cases p) simp
    show ?thesis
    proof (cases "cid \<in> assigned_consumer_ids st \<or> cid \<in> processed_consumer_ids_in_batch run")
      case True
      with p have "assign_row st r run =
          run\<lparr>skipped_already_assigned := skipped_already_assigned run + 1\<rparr>"
        by (simp add: assign_row_def)
      then show ?thesis
        by (simp add: Cons.IH staged_run_skip_assigned [OF p True])
    next
      case False
      with p have "assign_row st r run =
          run\<lparr>assignments_to_create := assignments_to_create run @ [new_assignment (cid, rid)],
              processed_consumer_ids_in_batch := insert cid (processed_consumer_ids_in_batch run)\<rparr>"
        by (simp add: assign_row_def new_assignment_def)
      then show ?thesis
        by (simp add: Cons.IH staged_run_stage [OF p False])
    qed
  qed
qed

lemma length_map_filter:
  "length (List.map_filter f xs) = length (filter (\<lambda>x. f x \<noteq> None) xs)"
  by (induction xs) (auto simp: List.map_filter_simps split: option.splits)

text \<open>
  C6, as the code has it. A row resolves when its \<open>ConsumerNumber\<close> and \<open>AreaCodeDesc\<close>
  are not blank and name a consumer and a route of the store. For every file and store,
  \<open>populate_consumers_route\<close> stages at most one assignment per consumer: the staged
  assignments are those of the first resolving row of each consumer that has no assignment
  in the store; their consumers are pairwise different and none of them is assigned in the
  store already; every other resolving row (its consumer is assigned in the store or was
  staged by an earlier row) is counted as already assigned; every row that does not
  resolve is counted as missing data, whether its consumer is assigned or not; the write
  appends exactly the staged assignments, so the table keeps one route per consumer.
\<close>

theorem one_assignment_per_consumer:
  "fst (populate_consumers_route df st) = stage_assignments st df \<and>
   assignments_to_create (stage_assignments st df) =
     map new_assignment
       (drop_duplicates fst
          (filter (\<lambda>p. fst p \<notin> assigned_consumer_ids st) (List.map_filter (resolve_row st) df))) \<and>
   distinct (map assigned_consumer (assignments_to_create (stage_assignments st df))) \<and>
   set (map assigned_consumer (assignments_to_create (stage_assignments st df))) \<inter>
     assigned_consumer_ids st = {} \<and>
   skipped_missing_data (stage_assignments st df) =
     length (filter (\<lambda>r. resolve_row st r = None) df) \<and>
   length (assignments_to_create (stage_assignments st df)) +
     skipped_already_assigned (stage_assignments st df) =
     length (filter (\<lambda>r. resolve_row st r \<noteq> None) df) \<and>
   assignment_tbl (snd (populate_consumers_route df st)) =
     assignment_tbl st @ assignments_to_create (stage_assignments st df)"
proof -
  let ?resolved = "List.map_filter (resolve_row st) df"
  let ?fresh = "drop_duplicates fst (filter (\<lambda>p. fst p \<notin> assigned_consumer_ids st) ?resolved)"
  let ?run = "stage_assignments st df"
  have run: "?run = staged_run st df
       \<lparr>assignments_to_create = [], processed_consumer_ids_in_batch = {},
        skipped_already_assigned = 0, skipped_missing_data = 0\<rparr>"
    by (simp only: stage_assignments_def fold_assign_row)
  have staged: "assignments_to_create ?run = map new_assignment ?fresh"
    by (simp add: run staged_run_def Let_def)
  have ids: "map assigned_consumer (map new_assignment ?fresh) = map fst ?fresh"
    by (simp add: new_assignment_def comp_def)
  have d: "distinct (map assigned_consumer (assignments_to_create ?run))"
    unfolding staged ids by (rule distinct_keys_drop_duplicates)
  have "set (map fst ?fresh) \<subseteq> fst ` set (filter (\<lambda>p. fst p \<notin> assigned_consumer_ids st) ?resolved)"
    using set_drop_duplicates_subset [of fst "filter (\<lambda>p. fst p \<notin> assigned_consumer_ids st) ?resolved"]
    by auto
  then have dj: "set (map assigned_consumer (assignments_to_create ?run)) \<inter>
      assigned_consumer_ids st = {}"
    unfolding staged ids by auto
  have m: "skipped_missing_data ?run = length (filter (\<lambda>r. resolve_row st r = None) df)"
    by (simp add: run staged_run_def Let_def)
  have le: "length ?fresh \<le> length ?resolved"
    by (rule length_drop_duplicates_filter_le)
  have "skipped_already_assigned ?run = length ?resolved - length ?fresh"
    by (simp add: run staged_run_def Let_def)
  with le have c: "length (assignments_to_create ?run) + skipped_already_assigned ?run =
      length (filter (\<lambda>r. resolve_row st r \<noteq> None) df)"
    by (simp add: staged length_map_filter)
  have f: "fst (populate_consumers_route df st) = ?run"
    by (simp add: populate_consumers_route_def Let_def split: prod.splits option.splits)
  have t: "assignment_tbl (snd (populate_consumers_route df st)) =
      assignment_tbl st @ assignments_to_create ?run"
  proof (cases "assignments_to_create ?run = []")
    case True
    then show ?thesis by (simp add: populate_consumers_route_def Let_def)
  next
    case False
    from dj have "set (map assigned_consumer (assignments_to_create ?run)) \<inter>
        set (map assigned_consumer (assignment_tbl st)) = {}"
      by (simp add: assigned_consumer_ids_def)
    with d have "insert_rows insert_assignment (assignment_tbl st) (assignments_to_create ?run) =
        Inr (assignment_tbl st @ assignments_to_create ?run)"
      by (rule insert_assignments_ok)
    then have "bulk_create insert_assignment 2000 (assignment_tbl st) (assignments_to_create ?run) =
        (None, assignment_tbl st @ assignments_to_create ?run)"
      by (simp add: bulk_create_ok_iff)
    with False show ?thesis by (simp add: populate_consumers_route_def Let_def)
  qed
  from f staged d dj m c t show ?thesis by blast
qed


theorem one_assignment_per_consumer_witness:
  "assignments_to_create (stage_assignments ex_assign_store ex_assign_rows) =
     [\<lparr>assigned_consumer = 1, assigned_route = 1\<rparr>, \<lparr>assigned_consumer = 2, assigned_route = 2\<rparr>] \<and>
   skipped_already_assigned (stage_assignments ex_assign_store ex_assign_rows) = 2 \<and>
   skipped_missing_data (stage_assignments ex_assign_store ex_assign_rows) = 2 \<and>
   distinct (map assigned_consumer (assignments_to_create (stage_assignments ex_assign_store ex_assign_rows))) \<and>
   assignment_tbl (snd (populate_consumers_route ex_assign_rows ex_assign_store)) =
     [\<lparr>assigned_consumer = 3, assigned_route = 1\<rparr>,
      \<lparr>assigned_consumer = 1, assigned_route = 1\<rparr>,
      \<lparr>assigned_consumer = 2, assigned_route = 2\<rparr>]"
proof -
  have e: "fst (populate_consumers_route ex_assign_rows ex_assign_store) =
     \<lparr>assignments_to_create =
        [\<lparr>assigned_consumer = 1, assigned_route = 1\<rparr>, \<lparr>assigned_consumer = 2, assigned_route = 2\<rparr>],
      processed_consumer_ids_in_batch = {1, 2},
      skipped_already_assigned = 2, skipped_missing_data = 2\<rparr>"
    by code_simp
  have t: "assignment_tbl ex_assign_store = [\<lparr>assigned_consumer = 3, assigned_route = 1\<rparr>]"
    by (simp add: ex_assign_store_def)
  note th = one_assignment_per_consumer [of ex_assign_rows ex_assign_store]
  have s: "stage_assignments ex_assign_store ex_assign_rows =
      fst (populate_consumers_route ex_assign_rows ex_assign_store)"
    by (rule th [THEN conjunct1, symmetric])
  have tb: "assignment_tbl (snd (populate_consumers_route ex_assign_rows ex_assign_store)) =
      assignment_tbl ex_assign_store @
      assignments_to_create (stage_assignments ex_assign_store ex_assign_rows)"
    by (rule th [THEN conjunct2, THEN conjunct2, THEN conjunct2, THEN conjunct2,
          THEN conjunct2, THEN conjunct2])
  show ?thesis
    unfolding tb unfolding s e t by simp
qed


text \<open>
  C6, as the claim has it (every row whose consumer already has an assignment is counted as
  already assigned), fails on a row whose route does not resolve: the consumer \<open>C3\<close> has
  an assignment in the store, the row names the unknown route \<open>R009\<close>, and the row is
  counted as missing data, because the command tests for missing data first.
\<close>

theorem assigned_row_counted_as_missing_data:
  "map_option fst (consumer_map ex_assign_store ''C3'') = Some 3 \<and>
   3 \<in> assigned_consumer_ids ex_assign_store \<and>
   route_map ex_assign_store ''R009'' = None \<and>
   skipped_already_assigned
     (fst (populate_consumers_route
        [blank_row\<lparr>ConsumerNumber := ''C3'', AreaCodeDesc := ''R009-West Zone''\<rparr>]
        ex_assign_store)) = 0 \<and>
   skipped_missing_data
     (fst (populate_consumers_route
        [blank_row\<lparr>ConsumerNumber := ''C3'', AreaCodeDesc := ''R009-West Zone''\<rparr>]
        ex_assign_store)) = 1"
  by code_simp

section \<open>The numeric coercions\<close>

lemma decimal_not_space: "is_decimal_char c \<Longrightarrow> \<not> int_isspace c"
  by (auto simp: is_decimal_char_def int_isspace_def Let_def)

lemma decimal_not_sign:
  "is_decimal_char c \<Longrightarrow> c \<noteq> CHR ''-'' \<and> c \<noteq> CHR ''+'' \<and> c \<noteq> CHR ''_''"
  by (auto simp: is_decimal_char_def)

lemma int_strip_decimal:
  assumes "list_all is_decimal_char s"
  shows "int_strip s = s"
proof (cases s rule: rev_cases)
  case Nil
  then show ?thesis by (simp add: int_strip_def)
next
  case (snoc ys y)
  with assms have y: "\<not> int_isspace y" by (simp add: decimal_not_space)
  show ?thesis
  proof (cases s)
    case Nil
    then show ?thesis by (simp add: int_strip_def)
  next
    case (Cons x xs)
    with assms have "\<not> int_isspace x" by (simp add: decimal_not_space)
    with Cons have "dropWhile int_isspace s = s" by simp
    with snoc y show ?thesis by (simp add: int_strip_def)
  qed
qed

lemma int_literal_body_decimal:
  "s \<noteq> [] \<Longrightarrow> list_all is_decimal_char s \<Longrightarrow> int_literal_body s"
proof (induction s rule: int_literal_body.induct)
  case 1
  then show ?case by simp
next
  case (2 c)
  then show ?case by simp
next
  case (3 c d cs)
  then show ?case by (auto simp: decimal_not_sign)
qed

lemma filter_underscore_decimal:
  "list_all is_decimal_char s \<Longrightarrow> filter (\<lambda>c. c \<noteq> CHR ''_'') s = s"
  by (induction s) (auto simp: decimal_not_sign)

lemma py_int_decimal:
  assumes "s \<noteq> []" and "list_all is_decimal_char s"
  shows "py_int s = Inr (int (decimal_value s))"
proof -
  have sign: "(case s of [] \<Rightarrow> (1::int, s)
                | c # r \<Rightarrow> if c = CHR ''-'' then (- 1, r) else if c = CHR ''+'' then (1, r) else (1, s))
              = (1, s)"
    using assms by (cases s) (auto simp: decimal_not_sign)
  have body: "int_literal_body s"
    using assms by (rule int_literal_body_decimal)
  have "py_int s =
          (case (1::int, s) of (sign, body) \<Rightarrow>
             if int_literal_body body
             then Inr (sign * int (decimal_value (filter (\<lambda>c. c \<noteq> CHR ''_'') body)))
             else Inl ValueError)"
    unfolding py_int_def Let_def int_strip_decimal [OF assms(2)] sign ..
  also have "\<dots> = Inr (int (decimal_value s))"
    using body by (simp add: filter_underscore_decimal [OF assms(2)])
  finally show ?thesis .
qed

lemma decimal_is_digit: "is_decimal_char c \<Longrightarrow> is_digit_char c"
  by (simp add: is_decimal_char_def is_digit_char_def Let_def)

lemma blue_book_of_decimal:
  assumes "s \<noteq> []" and "list_all is_decimal_char s"
  shows "blue_book_of s = Inr (Some (int (decimal_value s)))"
proof -
  from assms(2) have "list_all is_digit_char s"
    by (induction s) (auto simp: decimal_is_digit)
  with assms show ?thesis
    by (simp add: blue_book_of_def py_isdigit_def py_int_decimal)
qed

lemma blue_book_of_not_digits: "\<not> py_isdigit s \<Longrightarrow> blue_book_of s = Inr None"
  by (simp add: blue_book_of_def)

lemma lpg_id_of_not_digits:
  "\<not> py_isdigit (remove_first_dot s) \<Longrightarrow> lpg_id_of lib s = Inr None"
  by (simp add: lpg_id_of_def)

lemma lpg_id_of_digits:
  "s \<noteq> [] \<Longrightarrow> py_isdigit (remove_first_dot s) \<Longrightarrow> float_of_str lib s = Some x \<Longrightarrow>
     int_of_float lib x = Inr i \<Longrightarrow> lpg_id_of lib s = Inr (Some i)"
  by (simp add: lpg_id_of_def)


text \<open>
  C7 at the failing input. The cell \<open>BlueBookNumber\<close> holding the one character U+00B2
  (superscript two) passes the \<open>isdigit()\<close> guard, and \<open>int()\<close> then raises
  \<open>ValueError\<close>: the value does not become absent, the import ends with the exception.
  (For a cell of decimal digits \<open>blue_book_of_decimal\<close> gives the integer, for a cell that
  is not all digits, as \<open>12.5\<close>, \<open>blue_book_of_not_digits\<close> gives \<open>None\<close>.)
\<close>

theorem blue_book_superscript_raises:
  "py_isdigit [CHR 0xB2] \<and>
   blue_book_of [CHR 0xB2] = Inl ValueError \<and>
   blue_book_of ''12.5'' = Inr None \<and>
   populate_consumers ex_lib
     [blank_row\<lparr>ConsumerNumber := ''C9'', Category := ''General'',
        ConsumerTypeIdDesc := ''Domestic'', BlueBookNumber := [CHR 0xB2]\<rparr>] ex_store =
     (Some ValueError, ex_store)"
  by code_simp


section \<open>The address validator\<close>


lemma py_in_iff: "py_in sub s \<longleftrightarrow> (\<exists>p q. s = p @ sub @ q)"
proof (induction s)
  case Nil
  then show ?case by simp
next
  case (Cons c cs)
  have "(\<exists>p q. c # cs = p @ sub @ q) \<longleftrightarrow>
        (\<exists>q. c # cs = sub @ q) \<or> (\<exists>p q. cs = p @ sub @ q)"
  proof
    assume "\<exists>p q. c # cs = p @ sub @ q"
    then obtain p q where pq: "c # cs = p @ sub @ q" by blast
    show "(\<exists>q. c # cs = sub @ q) \<or> (\<exists>p q. cs = p @ sub @ q)"
    proof (cases p)
      case Nil
      with pq show ?thesis by auto
    next
      case (Cons a p')
      with pq have "cs = p' @ sub @ q" by simp
      then show ?thesis by blast
    qed
  next
    assume "(\<exists>q. c # cs = sub @ q) \<or> (\<exists>p q. cs = p @ sub @ q)"
    then show "\<exists>p q. c # cs = p @ sub @ q"
    proof
      assume "\<exists>q. c # cs = sub @ q"
      then obtain q where "c # cs = [] @ sub @ q" by auto
      then show ?thesis by blast
    next
      assume "\<exists>p q. cs = p @ sub @ q"
      then obtain p q where "c # cs = (c # p) @ sub @ q" by auto
      then show ?thesis by blast
    qed
  qed
  moreover have "take (length sub) (c # cs) = sub \<longleftrightarrow> (\<exists>q. c # cs = sub @ q)"
    by (metis append_eq_conv_conj append_take_drop_id)
  ultimately show ?case using Cons by simp
qed

lemma validate_consumers_filter:
  "validate_consumers consumers route_areas =
     filter (\<lambda>(cn, addr). \<not> (\<exists>area\<in>set route_areas. py_in area (py_upper addr))) consumers"
  by (induction consumers route_areas rule: validate_consumers.induct)
     (auto simp: list_ex_iff Let_def)

lemma fold_dedup:
  "fold (\<lambda>x acc. if fst x \<in> fst ` set acc then acc else acc @ [x]) xs acc =
     acc @ drop_duplicates fst (filter (\<lambda>x. fst x \<notin> fst ` set acc) xs)"
proof (induction xs arbitrary: acc)
  case Nil
  show ?case by simp
next
  case (Cons x xs)
  show ?case
  proof (cases "fst x \<in> fst ` set acc")
    case True
    then show ?thesis by (simp add: Cons.IH)
  next
    case False
    have "filter (\<lambda>y. fst y \<noteq> fst x) (filter (\<lambda>y. fst y \<notin> fst ` set acc) xs) =
          filter (\<lambda>y. fst y \<notin> fst ` set (acc @ [x])) xs"
      by (auto intro: filter_cong)
    with False show ?thesis by (simp add: Cons.IH)
  qed
qed


lemma stripped_cells_None: "stripped_cells r = None \<longleftrightarrow> \<not> has_all_cells r"
  by (auto simp: stripped_cells_def has_all_cells_def split: option.splits)

lemma process_row_cells:
  "process_row filt r d =
     (case stripped_cells r of None \<Rightarrow> Inl AttributeError | Some t \<Rightarrow> Inr (keep_step filt t d))"
  by (auto simp: process_row_def stripped_cells_def strip_cell_def keep_step_def
      split: option.splits)

lemma process_rows_complete:
  "list_all has_all_cells df \<Longrightarrow>
     process_rows filt df d = Inr (fold (keep_step filt) (List.map_filter stripped_cells df) d)"
proof (induction df arbitrary: d)
  case Nil
  show ?case by (simp add: List.map_filter_simps)
next
  case (Cons r df)
  then have "stripped_cells r \<noteq> None" by (simp add: stripped_cells_None)
  then obtain t where t: "stripped_cells r = Some t" by blast
  from Cons have "process_rows filt df (keep_step filt t d) =
      Inr (fold (keep_step filt) (List.map_filter stripped_cells df) (keep_step filt t d))"
    by simp
  with t show ?case by (simp add: process_row_cells List.map_filter_simps)
qed

lemma process_rows_incomplete:
  "\<not> list_all has_all_cells df \<Longrightarrow> process_rows filt df d = Inl AttributeError"
proof (induction df arbitrary: d)
  case Nil
  then show ?case by simp
next
  case (Cons r df)
  show ?case
  proof (cases "stripped_cells r")
    case None
    then show ?thesis by (simp add: process_row_cells)
  next
    case (Some t)
    then have "has_all_cells r" using stripped_cells_None [of r] by simp
    with Cons.prems have "\<not> list_all has_all_cells df" by simp
    from Cons.IH [OF this] Some show ?thesis by (simp add: process_row_cells)
  qed
qed

lemma kept_of_Cons: "kept_of filt (t # ts) = kept_of filt [t] @ kept_of filt ts"
proof -
  have "kept_of filt ([t] @ ts) = kept_of filt [t] @ kept_of filt ts"
    unfolding kept_of_def by (simp only: filter_append map_append)
  then show ?thesis by simp
qed

lemma keep_step_group:
  "keep_step filt t [(filt, acc)] =
     [(filt, fold (\<lambda>x acc. if fst x \<in> fst ` set acc then acc else acc @ [x]) (kept_of filt [t]) acc)]"
proof (cases "fst t \<noteq> [] \<and> fst (snd t) \<noteq> [] \<and> snd (snd t) \<noteq> [] \<and> fst (snd t) = filt")
  case True
  then show ?thesis by (simp add: keep_step_def add_consumer_def kept_of_def)
next
  case False
  then have "kept_of filt [t] = []" by (simp add: kept_of_def)
  moreover from False have "keep_step filt t [(filt, acc)] = [(filt, acc)]"
    by (auto simp: keep_step_def)
  ultimately show ?thesis by simp
qed

lemma fold_keep_step_group:
  "fold (keep_step filt) ts [(filt, acc)] =
     [(filt, fold (\<lambda>x acc. if fst x \<in> fst ` set acc then acc else acc @ [x]) (kept_of filt ts) acc)]"
proof (induction ts arbitrary: acc)
  case Nil
  show ?case by (simp add: kept_of_def)
next
  case (Cons t ts)
  show ?case
    by (simp only: fold_simps keep_step_group Cons.IH kept_of_Cons [of filt t ts] fold_append comp_def)
qed

lemma keep_step_empty:
  "keep_step filt t [] = (case kept_of filt [t] of [] \<Rightarrow> [] | x # xs \<Rightarrow> [(filt, [x])])"
proof (cases "fst t \<noteq> [] \<and> fst (snd t) \<noteq> [] \<and> snd (snd t) \<noteq> [] \<and> fst (snd t) = filt")
  case True
  then show ?thesis by (simp add: keep_step_def add_consumer_def kept_of_def)
next
  case False
  then have "kept_of filt [t] = []" by (simp add: kept_of_def)
  moreover from False have "keep_step filt t [] = []"
    by (auto simp: keep_step_def)
  ultimately show ?thesis by simp
qed

lemma fold_keep_step_empty:
  "fold (keep_step filt) ts [] =
     (if kept_of filt ts = [] then [] else [(filt, drop_duplicates fst (kept_of filt ts))])"
proof (induction ts)
  case Nil
  show ?case by (simp add: kept_of_def)
next
  case (Cons t ts)
  show ?case
  proof (cases "kept_of filt [t]")
    case Nil
    then have "kept_of filt (t # ts) = kept_of filt ts"
      by (simp add: kept_of_Cons [of filt t ts])
    with Nil Cons.IH show ?thesis by (simp add: keep_step_empty)
  next
    case (Cons x xs)
    then have xs: "xs = []" by (auto simp: kept_of_def split: if_splits)
    with Cons have k: "kept_of filt (t # ts) = x # kept_of filt ts"
      by (simp add: kept_of_Cons [of filt t ts])
    have "fold (keep_step filt) (t # ts) [] = fold (keep_step filt) ts [(filt, [x])]"
      using Cons by (simp add: keep_step_empty)
    also have "\<dots> = [(filt, [x] @ drop_duplicates fst (filter (\<lambda>y. fst y \<notin> fst ` set [x]) (kept_of filt ts)))]"
      by (simp only: fold_keep_step_group fold_dedup)
    also have "\<dots> = [(filt, drop_duplicates fst (x # kept_of filt ts))]"
      by simp
    finally show ?thesis by (simp add: k)
  qed
qed

lemma kept_pairs_kept_of: "kept_pairs df filt = kept_of filt (List.map_filter stripped_cells df)"
  by (simp add: kept_pairs_def kept_of_def)

lemma process_csv_eq:
  "list_all has_all_cells df \<Longrightarrow>
   process_csv df filt =
     Inr (if kept_pairs df filt = [] then [] else [(filt, drop_duplicates fst (kept_pairs df filt))])"
  by (simp only: process_csv_def process_rows_complete fold_keep_step_empty kept_pairs_kept_of)

lemma process_csv_short_line:
  "\<not> list_all has_all_cells df \<Longrightarrow> process_csv df filt = Inl AttributeError"
  unfolding process_csv_def by (rule process_rows_incomplete)

lemma process_csv_shape:
  "process_csv df filt = Inr groups \<Longrightarrow> groups = [] \<or> (\<exists>cs. groups = [(filt, cs)])"
proof (cases "list_all has_all_cells df")
  case True
  assume "process_csv df filt = Inr groups"
  with process_csv_eq [OF True, of filt] show ?thesis by (auto split: if_splits)
next
  case False
  assume "process_csv df filt = Inr groups"
  with process_csv_short_line [OF False, of filt] show ?thesis by simp
qed

lemma store_unchanged: "snd (validate_consumer_addresses df filt st) = st"
  by (simp add: validate_consumer_addresses_def Let_def split: sum.splits)

lemma no_areas_none_flagged:
  assumes "parse_area_code_desc filt = Inr (code, description)"
    and "find_route st code description = Some route_obj"
    and "get_route_areas st route_obj = []"
  shows "flagged (fst (validate_consumer_addresses df filt st)) = []"
proof (cases "process_csv df filt")
  case (Inl e)
  then show ?thesis by (simp add: validate_consumer_addresses_def flagged_def)
next
  case (Inr groups)
  from process_csv_shape [OF Inr] show ?thesis
  proof
    assume "groups = []"
    with Inr show ?thesis by (simp add: validate_consumer_addresses_def flagged_def)
  next
    assume "\<exists>cs. groups = [(filt, cs)]"
    then obtain cs where "groups = [(filt, cs)]" by blast
    with Inr assms show ?thesis
      by (simp add: validate_consumer_addresses_def flagged_def Let_def)
  qed
qed


lemma flagged_iff:
  assumes "parse_area_code_desc filt = Inr (code, description)"
    and "find_route st code description = Some route_obj"
    and "get_route_areas st route_obj \<noteq> []"
    and "list_all has_all_cells df"
  shows "(cn, addr) \<in> set (flagged (fst (validate_consumer_addresses df filt st))) \<longleftrightarrow>
        (cn, addr) \<in> set (drop_duplicates fst (kept_pairs df filt)) \<and>
        (\<forall>a\<in>set (route_area_tbl st). area_route (snd a) = fst route_obj \<longrightarrow>
           \<not> (\<exists>p q. py_upper addr = p @ py_upper (area_name (snd a)) @ q))"
proof (cases "kept_pairs df filt = []")
  case True
  with assms(4) show ?thesis
    by (simp add: validate_consumer_addresses_def flagged_def process_csv_eq)
next
  case False
  define cs where "cs = drop_duplicates fst (kept_pairs df filt)"
  from False assms(4) have pc: "process_csv df filt = Inr [(filt, cs)]"
    by (simp add: process_csv_eq cs_def)
  let ?areas = "get_route_areas st route_obj"
  have vg: "validate_groups st [(filt, cs)] [] = Inr (validate_consumers cs ?areas)"
    using assms(1-3) by simp
  have fl: "flagged (fst (validate_consumer_addresses df filt st)) = validate_consumers cs ?areas"
    using pc vg by (simp add: validate_consumer_addresses_def flagged_def Let_def)
  have "(\<exists>area\<in>set ?areas. py_in area (py_upper addr)) \<longleftrightarrow>
        (\<exists>a\<in>set (route_area_tbl st). area_route (snd a) = fst route_obj \<and>
           (\<exists>p q. py_upper addr = p @ py_upper (area_name (snd a)) @ q))"
    unfolding get_route_areas_def py_in_iff by (simp add: image_iff Bex_def) blast
  then show ?thesis
    by (auto simp: fl cs_def [symmetric] validate_consumers_filter)
qed

text \<open>
  C8, as the code has it. The command leaves the store as it was, whatever the file and
  the filter. A short line (a \<open>None\<close> cell) ends the run with \<open>CommandError\<close>. Let the
  filter parse into a code and a description and let the route of that code and
  description exist. If the route has no area, no consumer is shown as invalid. If it has
  at least one area and every row has its three cells, a pair (consumer, address) is shown
  as invalid exactly when it is one of the deduplicated pairs of the file (first row per
  consumer among the rows of the area) and no area name of the route, in upper case,
  occurs as a contiguous part of the address in upper case.
\<close>

theorem address_flagged_iff:
  "snd (validate_consumer_addresses df filt st) = st \<and>
   (\<not> list_all has_all_cells df \<longrightarrow>
      fst (validate_consumer_addresses df filt st) = Inl CommandError) \<and>
   (parse_area_code_desc filt = Inr (code, description) \<longrightarrow>
    find_route st code description = Some route_obj \<longrightarrow>
      (get_route_areas st route_obj = [] \<longrightarrow>
         flagged (fst (validate_consumer_addresses df filt st)) = []) \<and>
      (get_route_areas st route_obj \<noteq> [] \<longrightarrow> list_all has_all_cells df \<longrightarrow>
         ((cn, addr) \<in> set (flagged (fst (validate_consumer_addresses df filt st))) \<longleftrightarrow>
            (cn, addr) \<in> set (drop_duplicates fst (kept_pairs df filt)) \<and>
            (\<forall>a\<in>set (route_area_tbl st). area_route (snd a) = fst route_obj \<longrightarrow>
               \<not> (\<exists>p q. py_upper addr = p @ py_upper (area_name (snd a)) @ q)))))"
proof -
  have short: "\<not> list_all has_all_cells df \<Longrightarrow>
      fst (validate_consumer_addresses df filt st) = Inl CommandError"
    by (simp add: validate_consumer_addresses_def process_csv_short_line)
  show ?thesis
    using store_unchanged [of df filt st] short
      no_areas_none_flagged [of filt code description st route_obj df]
      flagged_iff [of filt code description st route_obj df cn addr]
    by blast
qed

theorem address_flagged_iff_witness:
  "parse_area_code_desc ''R001-North Zone'' = Inr (''R001'', ''North Zone'') \<and>
   find_route ex_route_store ''R001'' ''North Zone'' =
     Some (1, \<lparr>area_code = ''R001'', area_code_description = ''North Zone''\<rparr>) \<and>
   get_route_areas ex_route_store (1, \<lparr>area_code = ''R001'', area_code_description = ''North Zone''\<rparr>) =
     [''JAGTIAL'', ''KORUTLA'', ''METPALLY''] \<and>
   list_all has_all_cells ex_address_rows \<and>
   snd (validate_consumer_addresses ex_address_rows ''R001-North Zone'' ex_route_store) = ex_route_store \<and>
   flagged (fst (validate_consumer_addresses ex_address_rows ''R001-North Zone'' ex_route_store)) =
     [(''C002'', ''456 Main Street, Hyderabad'')] \<and>
   (''C002'', ''456 Main Street, Hyderabad'') \<in>
     set (drop_duplicates fst (kept_pairs ex_address_rows ''R001-North Zone'')) \<and>
   py_in ''JAGTIAL'' (py_upper ''123 jagtial road'')"
proof -
  let ?r = "(1::nat, \<lparr>area_code = ''R001'', area_code_description = ''North Zone''\<rparr>)"
  have p: "parse_area_code_desc ''R001-North Zone'' = Inr (''R001'', ''North Zone'')"
    by code_simp
  have f: "find_route ex_route_store ''R001'' ''North Zone'' = Some ?r"
    by code_simp
  have a: "get_route_areas ex_route_store ?r = [''JAGTIAL'', ''KORUTLA'', ''METPALLY'']"
    by code_simp
  then have n: "get_route_areas ex_route_store ?r \<noteq> []" by simp
  have c: "list_all has_all_cells ex_address_rows"
    by code_simp
  have fl: "flagged (fst (validate_consumer_addresses ex_address_rows ''R001-North Zone'' ex_route_store)) =
     [(''C002'', ''456 Main Street, Hyderabad'')]"
    by code_simp
  have u: "py_in ''JAGTIAL'' (py_upper ''123 jagtial road'')"
    by code_simp
  note th = address_flagged_iff [of ex_address_rows "''R001-North Zone''" ex_route_store
      "''R001''" "''North Zone''" ?r "''C002''" "''456 Main Street, Hyderabad''"]
  from th have s: "snd (validate_consumer_addresses ex_address_rows ''R001-North Zone'' ex_route_store) =
      ex_route_store"
    by blast
  from th p f n c have "(''C002'', ''456 Main Street, Hyderabad'') \<in>
      set (flagged (fst (validate_consumer_addresses ex_address_rows ''R001-North Zone'' ex_route_store))) \<longleftrightarrow>
      (''C002'', ''456 Main Street, Hyderabad'') \<in>
        set (drop_duplicates fst (kept_pairs ex_address_rows ''R001-North Zone'')) \<and>
      (\<forall>a\<in>set (route_area_tbl ex_route_store). area_route (snd a) = fst ?r \<longrightarrow>
         \<not> (\<exists>p q. py_upper ''456 Main Street, Hyderabad'' = p @ py_upper (area_name (snd a)) @ q))"
    by blast
  with fl have k: "(''C002'', ''456 Main Street, Hyderabad'') \<in>
        set (drop_duplicates fst (kept_pairs ex_address_rows ''R001-North Zone''))"
    by simp
  from p f a c s fl k u show ?thesis by blast
qed

text \<open>
  C8, as the claim has it (for every route), fails on a route without areas: the command
  passes the group over, and the consumer \<open>C004\<close> is not shown as invalid although no
  area name of the route occurs in the address.
\<close>

theorem address_not_flagged_without_areas:
  "process_csv ex_address_rows ''R002-South Zone'' =
     Inr [(''R002-South Zone'', [(''C004'', ''5 Lake View'')])] \<and>
   find_route ex_route_store ''R002'' ''South Zone'' =
     Some (2, \<lparr>area_code = ''R002'', area_code_description = ''South Zone''\<rparr>) \<and>
   get_route_areas ex_route_store (2, \<lparr>area_code = ''R002'', area_code_description = ''South Zone''\<rparr>) = [] \<and>
   validate_consumer_addresses ex_address_rows ''R002-South Zone'' ex_route_store =
     (Inr (AllValid 1), ex_route_store) \<and>
   validate_consumers [(''C004'', ''5 Lake View'')] [] = [(''C004'', ''5 Lake View'')]"
  by code_simp


section \<open>The staged consumers\<close>


lemma new_consumer_number:
  "new_consumer lib st r = Inr c \<Longrightarrow> consumer_number c = ConsumerNumber r"
  by (auto simp: new_consumer_def split: sum.splits)

lemma stage_consumers_loop_result:
  "stage_consumers_loop lib st rs (cs, new) = Inr (cs', new') \<Longrightarrow>
     (\<exists>ds. cs' = cs @ ds \<and>
        map Inr ds =
          map (new_consumer lib st) (filter (\<lambda>r. ConsumerNumber r \<notin> existing_consumer_nums st) rs)) \<and>
     new' = new \<union>
       ConsumerNumber ` set (filter (\<lambda>r. ConsumerNumber r \<notin> existing_consumer_nums st) rs)"
proof (induction rs arbitrary: cs new)
  case Nil
  then show ?case by simp
next
  case (Cons r rs)
  show ?case
  proof (cases "ConsumerNumber r \<in> existing_consumer_nums st")
    case True
    with Cons.prems have "stage_consumers_loop lib st rs (cs, new) = Inr (cs', new')" by simp
    from Cons.IH [OF this] True show ?thesis by simp
  next
    case False
    with Cons.prems obtain c where c: "new_consumer lib st r = Inr c"
      and rest: "stage_consumers_loop lib st rs (cs @ [c], insert (ConsumerNumber r) new) = Inr (cs', new')"
      by (auto split: sum.splits)
    from Cons.IH [OF rest] obtain ds where
      ds: "cs' = (cs @ [c]) @ ds"
        "map Inr ds = map (new_consumer lib st)
           (filter (\<lambda>r. ConsumerNumber r \<notin> existing_consumer_nums st) rs)"
      and n: "new' = insert (ConsumerNumber r) new \<union>
        ConsumerNumber ` set (filter (\<lambda>r. ConsumerNumber r \<notin> existing_consumer_nums st) rs)"
      by blast
    have A: "cs' = cs @ (c # ds)" using ds(1) by simp
    have B: "map Inr (c # ds) = map (new_consumer lib st)
           (filter (\<lambda>r. ConsumerNumber r \<notin> existing_consumer_nums st) (r # rs))"
      using ds(2) c False by simp
    have C: "new' = new \<union> ConsumerNumber `
        set (filter (\<lambda>r. ConsumerNumber r \<notin> existing_consumer_nums st) (r # rs))"
      using n False by simp
    from A B have E: "\<exists>ds. cs' = cs @ ds \<and> map Inr ds = map (new_consumer lib st)
           (filter (\<lambda>r. ConsumerNumber r \<notin> existing_consumer_nums st) (r # rs))"
      by blast
    from E C show ?thesis by (rule conjI)
  qed
qed

lemma stage_consumers_result:
  assumes "stage_consumers lib st df = Inr (cs, new)"
  shows "map Inr cs = map (new_consumer lib st)
           (filter (\<lambda>r. ConsumerNumber r \<notin> existing_consumer_nums st)
              (drop_duplicates ConsumerNumber df))"
    and "new = ConsumerNumber ` set df - existing_consumer_nums st"
proof -
  from assms have "stage_consumers_loop lib st (drop_duplicates ConsumerNumber df) ([], {}) = Inr (cs, new)"
    by (simp add: stage_consumers_def)
  from stage_consumers_loop_result [OF this]
  have m: "map Inr cs = map (new_consumer lib st)
           (filter (\<lambda>r. ConsumerNumber r \<notin> existing_consumer_nums st)
              (drop_duplicates ConsumerNumber df))"
    and n: "new = ConsumerNumber ` set (filter (\<lambda>r. ConsumerNumber r \<notin> existing_consumer_nums st)
              (drop_duplicates ConsumerNumber df))"
    by auto
  show "map Inr cs = map (new_consumer lib st)
           (filter (\<lambda>r. ConsumerNumber r \<notin> existing_consumer_nums st)
              (drop_duplicates ConsumerNumber df))" by (rule m)
  have "ConsumerNumber ` set (filter (\<lambda>r. ConsumerNumber r \<notin> existing_consumer_nums st)
              (drop_duplicates ConsumerNumber df)) =
        ConsumerNumber ` set (drop_duplicates ConsumerNumber df) - existing_consumer_nums st"
    by auto
  with n show "new = ConsumerNumber ` set df - existing_consumer_nums st"
    by (simp add: keys_drop_duplicates)
qed

lemma filter_built:
  assumes "map Inr cs = map f rs"
    and "\<And>r c. f r = Inr c \<Longrightarrow> g c = h r"
  shows "map Inr (filter (\<lambda>c. g c = n) cs) = map f (filter (\<lambda>r. h r = n) rs)"
  using assms
proof (induction cs arbitrary: rs)
  case Nil
  then show ?case by simp
next
  case (Cons c cs)
  then obtain r rs' where rs: "rs = r # rs'" and c: "f r = Inr c" and m: "map Inr cs = map f rs'"
    by (cases rs) auto
  from Cons.prems(2) c have "g c = h r" by blast
  with Cons.IH [OF m Cons.prems(2)] rs c show ?case by simp
qed

text \<open>
  C1. In a run of \<open>populate_consumers\<close> whose staging of consumers does not raise, the
  candidates staged for a \<open>ConsumerNumber\<close> are: none when no row of the file carries the
  number; none when the number is in the store's set of existing consumer numbers; and
  otherwise exactly one, the \<open>Consumer\<close> built from the first row of the file, in row
  order, that carries the number, however many rows share it.
\<close>

theorem one_candidate_from_first_row:
  assumes "stage_consumers lib st df = Inr (cs, new)"
  shows "map Inr (filter (\<lambda>c. consumer_number c = n) cs) =
           (case find (\<lambda>r. ConsumerNumber r = n) df of
              None \<Rightarrow> []
            | Some r \<Rightarrow> if n \<in> existing_consumer_nums st then [] else [new_consumer lib st r])"
proof -
  let ?ex = "existing_consumer_nums st"
  have "map Inr (filter (\<lambda>c. consumer_number c = n) cs) =
        map (new_consumer lib st)
          (filter (\<lambda>r. ConsumerNumber r = n)
             (filter (\<lambda>r. ConsumerNumber r \<notin> ?ex) (drop_duplicates ConsumerNumber df)))"
    by (rule filter_built [OF stage_consumers_result(1) [OF assms]]) (rule new_consumer_number)
  also have "filter (\<lambda>r. ConsumerNumber r = n)
             (filter (\<lambda>r. ConsumerNumber r \<notin> ?ex) (drop_duplicates ConsumerNumber df)) =
        filter (\<lambda>r. ConsumerNumber r \<notin> ?ex)
          (filter (\<lambda>r. ConsumerNumber r = n) (drop_duplicates ConsumerNumber df))"
    by (simp add: conj_commute)
  also have "\<dots> = filter (\<lambda>r. ConsumerNumber r \<notin> ?ex)
          (case find (\<lambda>r. ConsumerNumber r = n) df of None \<Rightarrow> [] | Some r \<Rightarrow> [r])"
    by (simp only: drop_duplicates_filter_key)
  also have "map (new_consumer lib st) \<dots> =
        (case find (\<lambda>r. ConsumerNumber r = n) df of
              None \<Rightarrow> []
            | Some r \<Rightarrow> if n \<in> ?ex then [] else [new_consumer lib st r])"
  proof (cases "find (\<lambda>r. ConsumerNumber r = n) df")
    case None
    then show ?thesis by simp
  next
    case (Some r)
    then have "ConsumerNumber r = n" by (auto simp: find_Some_iff)
    with Some show ?thesis by simp
  qed
  finally show ?thesis .
qed


theorem one_candidate_from_first_row_witness:
  "stage_consumers ex_lib ex_store ex_rows =
     Inr ([\<lparr>consumer_number = ''C1'', consumer_name = ''Asha'',
            father_name = [], mother_name = [], ration_card_num = None,
            lpg_id = Some 7, blue_book = Some 12, is_kyc_done = False,
            category = Some 1, consumer_type = Some 1\<rparr>], {''C1''}) \<and>
   find (\<lambda>r. ConsumerNumber r = ''C1'') ex_rows = Some ex_row_new \<and>
   ''C1'' \<notin> existing_consumer_nums ex_store \<and>
   [new_consumer ex_lib ex_store ex_row_new] =
     [Inr \<lparr>consumer_number = ''C1'', consumer_name = ''Asha'',
            father_name = [], mother_name = [], ration_card_num = None,
            lpg_id = Some 7, blue_book = Some 12, is_kyc_done = False,
            category = Some 1, consumer_type = Some 1\<rparr>]"
proof -
  let ?c = "\<lparr>consumer_number = ''C1'', consumer_name = ''Asha'',
            father_name = [], mother_name = [], ration_card_num = None,
            lpg_id = Some 7, blue_book = Some 12, is_kyc_done = False,
            category = Some 1, consumer_type = Some 1\<rparr>"
  have s: "stage_consumers ex_lib ex_store ex_rows = Inr ([?c], {''C1''})"
    by code_simp
  have f: "find (\<lambda>r. ConsumerNumber r = ''C1'') ex_rows = Some ex_row_new"
    by (simp add: ex_rows_def ex_row_new_def ex_row_again_def ex_row_known_def blank_row_def)
  have e: "''C1'' \<notin> existing_consumer_nums ex_store"
    by (simp add: existing_consumer_nums_def ex_store_def)
  from one_candidate_from_first_row [OF s, of "''C1''"] f e
  have "[new_consumer ex_lib ex_store ex_row_new] = [Inr ?c]" by simp
  with s f e show ?thesis by blast
qed

section \<open>Rows written and rows rejected\<close>

lemma insert_rows_snd:
  "insert_rows (insert_row ok) tbl xs = Inr tbl' \<Longrightarrow> map snd tbl' = map snd tbl @ xs"
proof (induction xs arbitrary: tbl)
  case Nil
  then show ?case by simp
next
  case (Cons x xs)
  then obtain t where t: "insert_row ok tbl x = Inr t" and r: "insert_rows (insert_row ok) t xs = Inr tbl'"
    by (auto split: sum.splits)
  from t have "map snd t = map snd tbl @ [x]"
    by (auto simp: insert_row_def split: if_splits)
  with Cons.IH [OF r] show ?case by simp
qed




section \<open>Atomicity of the import\<close>

text \<open>
  C4. \<open>populate_consumers\<close> is atomic: it raises exactly when its body raises, and whenever
  it raises the store after the run is the store before the run, whatever the body had
  written up to the exception; this holds for every batch size of the writes, the 2000 of
  the command included.
\<close>

theorem import_atomic:
  "fst (populate_consumers lib df st) = fst (handle_body lib 2000 df st) \<and>
   (fst (populate_consumers lib df st) = Some e \<longrightarrow> snd (populate_consumers lib df st) = st) \<and>
   (fst (atomic (handle_body lib n df) st) = Some e \<longrightarrow>
      snd (atomic (handle_body lib n df) st) = st)"
  by (auto simp: populate_consumers_def atomic_def split: prod.splits option.splits)

text \<open>
  In the example the body has written the two new consumers (in one batch, or in two
  batches of one) when \<open>float('')\<close> raises; the command returns the store it started from.
\<close>

theorem import_atomic_witness:
  "fst (populate_consumers ex_lib ex_rows_bad_size ex_store) = Some ValueError \<and>
   snd (populate_consumers ex_lib ex_rows_bad_size ex_store) = ex_store \<and>
   map (consumer_number \<circ> snd)
     (consumer_tbl (snd (handle_body ex_lib 2000 ex_rows_bad_size ex_store))) =
     [''C0'', ''C1'', ''C2''] \<and>
   fst (atomic (handle_body ex_lib 1 ex_rows_bad_size) ex_store) = Some ValueError \<and>
   map (consumer_number \<circ> snd)
     (consumer_tbl (snd (handle_body ex_lib 1 ex_rows_bad_size ex_store))) =
     [''C0'', ''C1'', ''C2''] \<and>
   snd (atomic (handle_body ex_lib 1 ex_rows_bad_size) ex_store) = ex_store"
proof -
  have a: "fst (populate_consumers ex_lib ex_rows_bad_size ex_store) = Some ValueError"
    by code_simp
  have b: "map (consumer_number \<circ> snd)
     (consumer_tbl (snd (handle_body ex_lib 2000 ex_rows_bad_size ex_store))) =
     [''C0'', ''C1'', ''C2'']"
    by code_simp
  have c: "fst (atomic (handle_body ex_lib 1 ex_rows_bad_size) ex_store) = Some ValueError"
    by code_simp
  have d: "map (consumer_number \<circ> snd)
     (consumer_tbl (snd (handle_body ex_lib 1 ex_rows_bad_size ex_store))) =
     [''C0'', ''C1'', ''C2'']"
    by code_simp
  note th = import_atomic [of ex_lib ex_rows_bad_size ex_store ValueError 1]
  from th a have s1: "snd (populate_consumers ex_lib ex_rows_bad_size ex_store) = ex_store"
    by blast
  from th c have s2: "snd (atomic (handle_body ex_lib 1 ex_rows_bad_size) ex_store) = ex_store"
    by blast
  from a s1 b c d s2 show ?thesis by blast
qed

section \<open>The lookups of the import\<close>














end
